theory Spec2Isabelle
  imports Main "HOL-Library.AList"
begin

section \<open>JavaScript values\<close>

text \<open>
  The module works on untyped JavaScript data: whatever \<^verbatim>\<open>JSON.parse\<close> returns, and query
  objects with an open set of fields. A finite number is written \<open>Dec m e\<close>, standing for
  \<open>m * 10 ^ e\<close> (every IEEE double has such a form); the module never computes with the
  numbers it carries, it only tests them for truthiness. Strings are lists of 8-bit
  characters. An object is the list of its own properties in insertion order (the
  first place that JavaScript gives to integer-like names is not modelled).
\<close>

datatype jnum = NaN | Infinity (negative: bool) | Dec int int

datatype jv =
    JUndefined
  | JNull
  | JBool bool
  | JNum jnum
  | JStr string
  | JArr "jv list"
  | JObj "(string \<times> jv) list"

type_synonym obj = "(string \<times> jv) list"

datatype error = TypeError | URIError | SyntaxError

definition bindE :: "error + 'a \<Rightarrow> ('a \<Rightarrow> error + 'b) \<Rightarrow> error + 'b" where
  "bindE m f = (case m of Inl e \<Rightarrow> Inl e | Inr x \<Rightarrow> f x)"

text \<open>\<^verbatim>\<open>!v\<close> is \<open>\<not> truthy v\<close>.\<close>

fun truthy :: "jv \<Rightarrow> bool" where
  "truthy JUndefined = False"
| "truthy JNull = False"
| "truthy (JBool b) = b"
| "truthy (JNum NaN) = False"
| "truthy (JNum (Infinity s)) = True"
| "truthy (JNum (Dec m e)) = (m \<noteq> 0)"
| "truthy (JStr s) = (s \<noteq> [])"
| "truthy (JArr xs) = True"
| "truthy (JObj ps) = True"

text \<open>Decimal rendering of an array index or a counter.\<close>

definition digit_char :: "nat \<Rightarrow> char" where
  "digit_char d = ''0123456789'' ! (d mod 10)"

fun show_nat :: "nat \<Rightarrow> string" where
  "show_nat n = (if n < 10 then [digit_char n] else show_nat (n div 10) @ [digit_char (n mod 10)])"

declare show_nat.simps [simp del]

text \<open>
  Reading a data property \<^verbatim>\<open>o.k\<close> of an object (\<^verbatim>\<open>undefined\<close> when absent) and writing one
  (\<^verbatim>\<open>{...o, k: v}\<close>: an existing property keeps its place, a new one goes last).
\<close>

definition obj_get :: "obj \<Rightarrow> string \<Rightarrow> jv" where
  "obj_get ps k = (case map_of ps k of None \<Rightarrow> JUndefined | Some v \<Rightarrow> v)"

definition obj_set :: "string \<Rightarrow> jv \<Rightarrow> obj \<Rightarrow> obj" where
  "obj_set k v ps = AList.update k v ps"

text \<open>The index names \<^verbatim>\<open>0\<close>, \<^verbatim>\<open>1\<close>, ... of an array or a string of length \<open>n\<close>: with
  \<^verbatim>\<open>length\<close>, its own properties.\<close>

definition index_keys :: "nat \<Rightarrow> string list" where
  "index_keys n = map show_nat [0..<n]"

text \<open>
  \<^verbatim>\<open>segment.hasOwnProperty(prop)\<close>. The method is looked up on the value first: on
  \<^verbatim>\<open>null\<close> and \<^verbatim>\<open>undefined\<close> the lookup throws, and an object with an own data property
  named \<^verbatim>\<open>hasOwnProperty\<close> shadows the inherited method with something that cannot be
  called. Numbers and booleans are boxed and have no own properties.
\<close>

fun hasOwnProperty :: "jv \<Rightarrow> string \<Rightarrow> error + bool" where
  "hasOwnProperty JUndefined prop = Inl TypeError"
| "hasOwnProperty JNull prop = Inl TypeError"
| "hasOwnProperty (JBool b) prop = Inr False"
| "hasOwnProperty (JNum n) prop = Inr False"
| "hasOwnProperty (JStr s) prop = Inr (prop = ''length'' \<or> prop \<in> set (index_keys (length s)))"
| "hasOwnProperty (JArr xs) prop = Inr (prop = ''length'' \<or> prop \<in> set (index_keys (length xs)))"
| "hasOwnProperty (JObj ps) prop =
     (if ''hasOwnProperty'' \<in> fst ` set ps then Inl TypeError else Inr (prop \<in> fst ` set ps))"

text \<open>\<^verbatim>\<open>xs.some(p)\<close> and \<^verbatim>\<open>xs.filter(p)\<close> for a callback that may throw.\<close>

fun someE :: "('a \<Rightarrow> error + bool) \<Rightarrow> 'a list \<Rightarrow> error + bool" where
  "someE p [] = Inr False"
| "someE p (x # xs) =
     (case p x of Inl e \<Rightarrow> Inl e | Inr b \<Rightarrow> if b then Inr True else someE p xs)"

fun filterE :: "('a \<Rightarrow> error + bool) \<Rightarrow> 'a list \<Rightarrow> error + 'a list" where
  "filterE p [] = Inr []"
| "filterE p (x # xs) =
     (case p x of
        Inl e \<Rightarrow> Inl e
      | Inr b \<Rightarrow> (case filterE p xs of
                    Inl e \<Rightarrow> Inl e
                  | Inr ys \<Rightarrow> Inr (if b then x # ys else ys)))"

text \<open>\<^verbatim>\<open>xs.join(",")\<close> on strings.\<close>

fun join_comma :: "string list \<Rightarrow> string" where
  "join_comma [] = []"
| "join_comma [x] = x"
| "join_comma (x # y # ys) = x @ '','' @ join_comma (y # ys)"

section \<open>The environment of the module\<close>

text \<open>
  The built-in functions of the language and the constant imported from the logs model
  are parameters of the embedding: results below hold for every environment. A built-in
  that throws returns \<open>Inl\<close>.
\<close>

record js_env =
  decodeURI :: "string \<Rightarrow> error + string"
  JSON_parse :: "string \<Rightarrow> error + jv"
  JSON_stringify :: "jv \<Rightarrow> string"
  Number_toString :: "jnum \<Rightarrow> string"
  LogsDedupStrategy_none :: jv

section \<open>URL state: constants\<close>

definition DEFAULT_RANGE :: jv where
  "DEFAULT_RANGE = JObj [(''from'', JStr ''now-6h''), (''to'', JStr ''now'')]"

definition DEFAULT_UI_STATE :: "js_env \<Rightarrow> jv" where
  "DEFAULT_UI_STATE E =
     JObj [(''showingTable'', JBool True), (''showingGraph'', JBool True),
           (''showingLogs'', JBool True), (''dedupStrategy'', LogsDedupStrategy_none E)]"

definition metricProperties :: "string list" where
  "metricProperties = [''expr'', ''target'', ''datasource'']"

definition isMetricSegment :: "jv \<Rightarrow> error + bool" where
  "isMetricSegment segment = someE (\<lambda>prop. hasOwnProperty segment prop) metricProperties"

definition isUISegment :: "jv \<Rightarrow> error + bool" where
  "isUISegment segment = hasOwnProperty segment ''ui''"

datatype ParseUrlStateIndex = RangeFrom | RangeTo | Datasource | SegmentsStart

fun url_index :: "ParseUrlStateIndex \<Rightarrow> nat" where
  "url_index RangeFrom = 0"
| "url_index RangeTo = 1"
| "url_index Datasource = 2"
| "url_index SegmentsStart = 3"

datatype ParseUiStateIndex = Graph | Logs | Table | Strategy

fun ui_index :: "ParseUiStateIndex \<Rightarrow> nat" where
  "ui_index ParseUiStateIndex.Graph = 0"
| "ui_index ParseUiStateIndex.Logs = 1"
| "ui_index ParseUiStateIndex.Table = 2"
| "ui_index ParseUiStateIndex.Strategy = 3"

section \<open>URL state: parsing\<close>

text \<open>
  \<^verbatim>\<open>safeParseJson\<close>: an absent or empty text gives \<^verbatim>\<open>undefined\<close>; an exception of
  \<^verbatim>\<open>decodeURI\<close> or \<^verbatim>\<open>JSON.parse\<close> is caught (and logged), and the function falls off its
  end, which gives \<^verbatim>\<open>undefined\<close> too.
\<close>

definition safeParseJson :: "js_env \<Rightarrow> string option \<Rightarrow> jv" where
  "safeParseJson E text =
     (case text of
        None \<Rightarrow> JUndefined
      | Some t \<Rightarrow>
          if t = [] then JUndefined
          else (case decodeURI E t of
                  Inl e \<Rightarrow> JUndefined
                | Inr d \<Rightarrow> (case JSON_parse E d of Inl e \<Rightarrow> JUndefined | Inr v \<Rightarrow> v)))"

text \<open>
  Reading a property: \<^verbatim>\<open>v.k\<close> for a name \<open>k\<close> that no prototype defines and that is
  neither \<^verbatim>\<open>length\<close> nor an index (the names read below are \<^verbatim>\<open>ui\<close>, \<^verbatim>\<open>range\<close>,
  \<^verbatim>\<open>from\<close>, ...), and \<^verbatim>\<open>v[i]\<close> for an index \<open>i\<close>. Reading a property of \<^verbatim>\<open>null\<close> or
  \<^verbatim>\<open>undefined\<close> throws; a string answers an index with its character; a number or a
  boolean answers \<^verbatim>\<open>undefined\<close>.
\<close>

fun prop_read :: "jv \<Rightarrow> string \<Rightarrow> error + jv" where
  "prop_read JUndefined k = Inl TypeError"
| "prop_read JNull k = Inl TypeError"
| "prop_read (JObj ps) k = Inr (obj_get ps k)"
| "prop_read v k = Inr JUndefined"

fun index_read :: "jv \<Rightarrow> nat \<Rightarrow> error + jv" where
  "index_read JUndefined i = Inl TypeError"
| "index_read JNull i = Inl TypeError"
| "index_read (JArr xs) i = Inr (if i < length xs then xs ! i else JUndefined)"
| "index_read (JStr s) i = Inr (if i < length s then JStr [s ! i] else JUndefined)"
| "index_read (JObj ps) i = Inr (obj_get ps (show_nat i))"
| "index_read v i = Inr JUndefined"

text \<open>
  \<open>parseUrlState\<close>. Its local constant \<open>errorResult\<close> and the conditional that builds
  \<open>ui\<close> from the first UI segment are definitions of their own. The two calls of
  \<^verbatim>\<open>console.error\<close> leave no trace in the result and are not modelled.
\<close>

definition errorResult :: "js_env \<Rightarrow> jv" where
  "errorResult E =
     JObj [(''datasource'', JNull), (''queries'', JArr []),
           (''range'', DEFAULT_RANGE), (''ui'', DEFAULT_UI_STATE E)]"

definition parse_ui :: "js_env \<Rightarrow> jv \<Rightarrow> error + jv" where
  "parse_ui E uiState =
     (if truthy uiState then
        bindE (prop_read uiState ''ui'') (\<lambda>u.
        bindE (index_read u (ui_index ParseUiStateIndex.Graph)) (\<lambda>g.
        bindE (index_read u (ui_index ParseUiStateIndex.Logs)) (\<lambda>l.
        bindE (index_read u (ui_index ParseUiStateIndex.Table)) (\<lambda>t.
        bindE (index_read u (ui_index ParseUiStateIndex.Strategy)) (\<lambda>d.
          Inr (JObj [(''showingGraph'', g), (''showingLogs'', l),
                     (''showingTable'', t), (''dedupStrategy'', d)]))))))
      else Inr (DEFAULT_UI_STATE E))"

definition parseUrlState :: "js_env \<Rightarrow> string option \<Rightarrow> error + jv" where
  "parseUrlState E initial =
     (let parsed = safeParseJson E initial in
      if \<not> truthy parsed then Inr (errorResult E)
      else case parsed of
        JArr xs \<Rightarrow>
          if length xs \<le> url_index SegmentsStart then Inr (errorResult E)
          else
            let range = JObj [(''from'', xs ! url_index RangeFrom), (''to'', xs ! url_index RangeTo)];
                datasource = xs ! url_index Datasource;
                parsedSegments = drop (url_index SegmentsStart) xs
            in bindE (filterE isMetricSegment parsedSegments) (\<lambda>queries.
               bindE (filterE isUISegment parsedSegments) (\<lambda>uis.
               bindE (parse_ui E (case uis of [] \<Rightarrow> JUndefined | uiState # rest \<Rightarrow> uiState)) (\<lambda>ui.
                 Inr (JObj [(''datasource'', datasource), (''queries'', JArr queries),
                            (''range'', range), (''ui'', ui)]))))
      | other \<Rightarrow> Inr parsed)"

section \<open>URL state: serialization\<close>

text \<open>
  A session state is the object
  \<^verbatim>\<open>{datasource, queries, range: {from, to}, ui: {showingGraph, showingLogs, showingTable, dedupStrategy}}\<close>.
\<close>

definition urlState ::
  "jv \<Rightarrow> jv list \<Rightarrow> jv \<Rightarrow> jv \<Rightarrow> jv \<Rightarrow> jv \<Rightarrow> jv \<Rightarrow> jv \<Rightarrow> jv" where
  "urlState ds qs f t g l tb dd =
     JObj [(''datasource'', ds), (''queries'', JArr qs),
           (''range'', JObj [(''from'', f), (''to'', t)]),
           (''ui'', JObj [(''showingGraph'', g), (''showingLogs'', l),
                          (''showingTable'', tb), (''dedupStrategy'', dd)])]"

text \<open>\<^verbatim>\<open>[...v]\<close>: the elements of an array, the characters of a string; nothing else here
  is iterable.\<close>

fun spread_elements :: "jv \<Rightarrow> error + jv list" where
  "spread_elements (JArr xs) = Inr xs"
| "spread_elements (JStr s) = Inr (map (\<lambda>c. JStr [c]) s)"
| "spread_elements v = Inl TypeError"

definition compactArray :: "jv \<Rightarrow> error + jv" where
  "compactArray s =
     bindE (prop_read s ''range'') (\<lambda>r.
     bindE (prop_read r ''from'') (\<lambda>f.
     bindE (prop_read r ''to'') (\<lambda>t.
     bindE (prop_read s ''datasource'') (\<lambda>ds.
     bindE (prop_read s ''queries'') (\<lambda>q.
     bindE (spread_elements q) (\<lambda>qs.
     bindE (prop_read s ''ui'') (\<lambda>u.
     bindE (prop_read u ''showingGraph'') (\<lambda>g.
     bindE (prop_read u ''showingLogs'') (\<lambda>l.
     bindE (prop_read u ''showingTable'') (\<lambda>tb.
     bindE (prop_read u ''dedupStrategy'') (\<lambda>dd.
       Inr (JArr ([f, t, ds] @ qs @
                  [JObj [(''ui'', JArr [JBool (truthy g), JBool (truthy l),
                                        JBool (truthy tb), dd])]])))))))))))))"

definition serializeStateToUrlParam :: "js_env \<Rightarrow> jv \<Rightarrow> bool \<Rightarrow> error + string" where
  "serializeStateToUrlParam E s compact =
     (if compact then bindE (compactArray s) (\<lambda>a. Inr (JSON_stringify E a))
      else Inr (JSON_stringify E s))"

section \<open>Query keys\<close>

text \<open>
  \<^verbatim>\<open>ToString\<close>, as string concatenation and template literals apply it. An array joins
  its elements with commas, \<^verbatim>\<open>null\<close> and \<^verbatim>\<open>undefined\<close> elements giving the empty string;
  an object answers \<^verbatim>\<open>[object Object]\<close>, unless an own data property named \<^verbatim>\<open>toString\<close>
  shadows the inherited method, and then the conversion throws.
\<close>

fun sequenceE :: "(error + 'a) list \<Rightarrow> error + 'a list" where
  "sequenceE [] = Inr []"
| "sequenceE (r # rs) =
     (case r of
        Inl e \<Rightarrow> Inl e
      | Inr y \<Rightarrow> (case sequenceE rs of Inl e \<Rightarrow> Inl e | Inr ys \<Rightarrow> Inr (y # ys)))"

fun ToString :: "js_env \<Rightarrow> jv \<Rightarrow> error + string" where
  "ToString E JUndefined = Inr ''undefined''"
| "ToString E JNull = Inr ''null''"
| "ToString E (JBool b) = Inr (if b then ''true'' else ''false'')"
| "ToString E (JNum n) = Inr (Number_toString E n)"
| "ToString E (JStr s) = Inr s"
| "ToString E (JArr xs) =
     (case sequenceE (map (\<lambda>x. if x = JUndefined \<or> x = JNull then Inr [] else ToString E x) xs) of
        Inl e \<Rightarrow> Inl e
      | Inr ss \<Rightarrow> Inr (join_comma ss))"
| "ToString E (JObj ps) =
     (if ''toString'' \<in> fst ` set ps then Inl TypeError else Inr ''[object Object]'')"

text \<open>
  \<open>generateKey\<close> reads the clock and the random number generator; the two numbers read
  are its first argument. The index defaults to 0 at the call sites that omit it.
\<close>

definition generateKey :: "js_env \<Rightarrow> jnum \<times> jnum \<Rightarrow> nat \<Rightarrow> string" where
  "generateKey E reading index =
     ''Q-'' @ Number_toString E (fst reading) @ ''-'' @ Number_toString E (snd reading) @
     ''-'' @ show_nat index"

text \<open>
  Modelled from the spec: the function \<^verbatim>\<open>getNextRefIdChar\<close> is imported from the module
  \<^verbatim>\<open>./query\<close>, which is not among the sources. The spec says that it allocates "the next
  unused letter (A, B, C, ..., skipping letters already assigned earlier in the same
  output batch)"; when every letter is taken there is nothing to return.
\<close>

definition refIdLetters :: string where
  "refIdLetters = ''ABCDEFGHIJKLMNOPQRSTUVWXYZ''"

definition getNextRefIdChar :: "obj list \<Rightarrow> jv" where
  "getNextRefIdChar queries =
     (case find (\<lambda>l. \<forall>q\<in>set queries. obj_get q ''refId'' \<noteq> JStr [l]) refIdLetters of
        None \<Rightarrow> JUndefined
      | Some l \<Rightarrow> JStr [l])"

definition generateEmptyQuery :: "js_env \<Rightarrow> jnum \<times> jnum \<Rightarrow> obj list \<Rightarrow> nat \<Rightarrow> obj" where
  "generateEmptyQuery E reading queries index =
     [(''refId'', getNextRefIdChar queries), (''key'', JStr (generateKey E reading index))]"

text \<open>
  The loop of \<open>ensureQueries\<close>: \<open>index\<close> is the loop counter, \<open>allQueries\<close> the batch built
  so far, and \<open>readings index\<close> what the call of \<open>generateKey\<close> in round \<open>index\<close> reads.
\<close>

fun ensureQueries_loop ::
  "js_env \<Rightarrow> (nat \<Rightarrow> jnum \<times> jnum) \<Rightarrow> obj list \<Rightarrow> nat \<Rightarrow> obj list \<Rightarrow> obj list" where
  "ensureQueries_loop E readings [] index allQueries = allQueries"
| "ensureQueries_loop E readings (query # rest) index allQueries =
     (let key = generateKey E (readings index) index;
          refId = obj_get query ''refId'';
          refId = (if \<not> truthy refId then getNextRefIdChar allQueries else refId)
      in ensureQueries_loop E readings rest (Suc index)
           (allQueries @ [obj_set ''key'' (JStr key) (obj_set ''refId'' refId query)]))"

text \<open>An absent list reaches \<open>generateEmptyQuery\<close> as it is; with no queries to look at,
  the allocator sees the empty batch.\<close>

definition ensureQueries ::
  "js_env \<Rightarrow> (nat \<Rightarrow> jnum \<times> jnum) \<Rightarrow> obj list option \<Rightarrow> obj list" where
  "ensureQueries E readings queries =
     (case queries of
        None \<Rightarrow> [generateEmptyQuery E (readings 0) [] 0]
      | Some qs \<Rightarrow>
          if 0 < length qs then ensureQueries_loop E readings qs 0 []
          else [generateEmptyQuery E (readings 0) qs 0])"

text \<open>\<^verbatim>\<open>Object.keys(query)\<close>: an object lists each of its own properties once.\<close>

definition Object_keys :: "obj \<Rightarrow> string list" where
  "Object_keys query = map fst query"

definition hasNonEmptyQuery :: "obj list \<Rightarrow> bool" where
  "hasNonEmptyQuery queries =
     list_ex (\<lambda>query. 2 < length (filter truthy (map (\<lambda>k. obj_get query k) (Object_keys query))))
       queries"

text \<open>
  The count that the spec's sentence on \<open>hasNonEmptyQuery\<close> speaks of: the number of
  fields of a query, other than \<^verbatim>\<open>key\<close> and \<^verbatim>\<open>refId\<close>, whose value is truthy.
\<close>

definition truthy_fields_besides_keys :: "obj \<Rightarrow> nat" where
  "truthy_fields_besides_keys query =
     length (filter (\<lambda>k. truthy (obj_get query k))
               (filter (\<lambda>k. k \<noteq> ''key'' \<and> k \<noteq> ''refId'') (Object_keys query)))"

section \<open>Query transactions\<close>

datatype ResultType = Graph | Table | Logs

record 'm TimeRange =
  from' :: 'm
  to' :: 'm
  raw :: jv

record QueryIntervals =
  interval :: jv
  intervalMs :: jv

record 'm RequestOptions = QueryIntervals +
  panelId :: string
  targets :: "obj list"
  range' :: "'m TimeRange"
  rangeRaw :: jv
  scopedVars :: jv
  maxDataPoints :: jv

text \<open>A transaction as \<open>buildQueryTransaction\<close> makes it; the execution layer sets
  \<open>done'\<close> and adds the result later.\<close>

record 'm QueryTransaction =
  queries :: "obj list"
  options :: "'m RequestOptions"
  resultType :: ResultType
  scanning :: bool
  id' :: string
  done' :: bool
  latency :: nat
  result :: "jv list option"

text \<open>\<^verbatim>\<open>{...query, ...queryOptions}\<close>: every own property of the options is written onto a
  copy of the query.\<close>

definition spread_onto :: "obj \<Rightarrow> obj \<Rightarrow> obj" where
  "spread_onto query source =
     fold (\<lambda>k target. obj_set k (obj_get source k) target) (Object_keys source) query"

fun combineKeys :: "js_env \<Rightarrow> string \<Rightarrow> obj list \<Rightarrow> error + string" where
  "combineKeys E combinedKey [] = Inr combinedKey"
| "combineKeys E combinedKey (query # rest) =
     (case ToString E (obj_get query ''key'') of
        Inl e \<Rightarrow> Inl e
      | Inr k \<Rightarrow> combineKeys E (combinedKey @ k) rest)"

definition buildQueryTransaction ::
  "js_env \<Rightarrow> jnum \<times> jnum \<Rightarrow> obj list \<Rightarrow> ResultType \<Rightarrow> obj \<Rightarrow> 'm TimeRange \<Rightarrow> QueryIntervals \<Rightarrow>
   bool \<Rightarrow> error + 'm QueryTransaction" where
  "buildQueryTransaction E reading qs rt queryOptions rng queryIntervals scan =
     (let configuredQueries = map (\<lambda>query. spread_onto query queryOptions) qs in
      bindE (combineKeys E [] qs) (\<lambda>key.
      bindE (ToString E (obj_get queryOptions ''format'')) (\<lambda>format.
        Inr \<lparr>queries = qs,
             options =
               \<lparr>interval = interval queryIntervals,
                intervalMs = intervalMs queryIntervals,
                panelId = format @ ''-'' @ key,
                targets = configuredQueries,
                range' = rng,
                rangeRaw = raw rng,
                scopedVars =
                  JObj [(''__interval'',
                           JObj [(''text'', interval queryIntervals),
                                 (''value'', interval queryIntervals)]),
                        (''__interval_ms'',
                           JObj [(''text'', intervalMs queryIntervals),
                                 (''value'', intervalMs queryIntervals)])],
                maxDataPoints = obj_get queryOptions ''maxDataPoints''\<rparr>,
             resultType = rt,
             scanning = scan,
             id' = generateKey E reading 0,
             done' = False,
             latency = 0,
             result = None\<rparr>)))"

section \<open>Colors of time series\<close>

text \<open>
  Transactions are objects compared by identity (\<^verbatim>\<open>other === transaction\<close>): a transaction
  is a reference, and the heap says which object a reference points to. The palette
  \<^verbatim>\<open>colors\<close> is imported and is a parameter. The class \<^verbatim>\<open>TimeSeries\<close> is imported too: a
  series is the record of the options that its constructor is given.
\<close>

type_synonym ref = nat

record seriesData =
  datapoints :: jv
  target :: jv
  unit :: jv

record 'c TimeSeries =
  datapoints :: jv
  alias' :: jv
  color :: "'c option"
  unit :: jv

text \<open>The loop over \<open>allTransactions\<close>, with the running \<open>colorIndexOffset\<close>. Reading
  \<^verbatim>\<open>other.result.length\<close> throws when the transaction has no result.\<close>

fun colorIndexOffset_loop ::
  "(ref \<Rightarrow> 'm QueryTransaction) \<Rightarrow> ref \<Rightarrow> ref list \<Rightarrow> nat \<Rightarrow> error + nat" where
  "colorIndexOffset_loop H transaction [] colorIndexOffset = Inr colorIndexOffset"
| "colorIndexOffset_loop H transaction (other # rest) colorIndexOffset =
     (if other = transaction then Inr colorIndexOffset
      else if resultType (H other) = Graph \<and> done' (H other) then
        (case result (H other) of
           None \<Rightarrow> Inl TypeError
         | Some r \<Rightarrow> colorIndexOffset_loop H transaction rest (colorIndexOffset + length r))
      else colorIndexOffset_loop H transaction rest colorIndexOffset)"

text \<open>\<^verbatim>\<open>colors[n % colors.length]\<close>: with an empty palette the index is \<^verbatim>\<open>NaN\<close> and the
  color \<^verbatim>\<open>undefined\<close>.\<close>

definition palette_color :: "'c list \<Rightarrow> nat \<Rightarrow> 'c option" where
  "palette_color colors n =
     (if length colors = 0 then None else Some (colors ! (n mod length colors)))"

definition makeTimeSeriesList ::
  "'c list \<Rightarrow> (ref \<Rightarrow> 'm QueryTransaction) \<Rightarrow> seriesData list \<Rightarrow> ref \<Rightarrow> ref list \<Rightarrow>
   error + 'c TimeSeries list" where
  "makeTimeSeriesList colors H dataList transaction allTransactions =
     bindE (colorIndexOffset_loop H transaction allTransactions 0) (\<lambda>colorIndexOffset.
       Inr (map (\<lambda>(index, sd).
                   \<lparr>datapoints = (if truthy (seriesData.datapoints sd) then seriesData.datapoints sd
                                  else JArr []),
                    alias' = target sd,
                    color = palette_color colors (colorIndexOffset + index),
                    unit = seriesData.unit sd\<rparr>)
                (zip [0..<length dataList] dataList)))"

section \<open>Query history\<close>

record 'q HistoryItem =
  query :: 'q
  ts :: jnum

definition MAX_HISTORY_ITEMS :: nat where
  "MAX_HISTORY_ITEMS = 100"

text \<open>
  \<open>updateHistory\<close> reads the clock once (\<open>now\<close>) and writes the store. The store is
  imported from \<^verbatim>\<open>app/core/store\<close>: its operation \<^verbatim>\<open>setObject\<close> is a parameter, which
  takes the key, the value and the state of the store to the new state.
\<close>

definition updateHistory ::
  "(string \<Rightarrow> 'q HistoryItem list \<Rightarrow> 's \<Rightarrow> 's) \<Rightarrow> 'q HistoryItem list \<Rightarrow> string \<Rightarrow> 'q list \<Rightarrow>
   jnum \<Rightarrow> 's \<Rightarrow> 'q HistoryItem list \<times> 's" where
  "updateHistory setObject history datasourceId qs now st =
     (let history = fold (\<lambda>q h. \<lparr>query = q, ts = now\<rparr> # h) qs history;
          history = (if MAX_HISTORY_ITEMS < length history then take MAX_HISTORY_ITEMS history
                     else history);
          historyKey = ''grafana.explore.history.'' @ datasourceId
      in (history, setObject historyKey history st))"

text \<open>Successive calls: each call receives the history that the call before returned.\<close>

fun updateHistory_calls ::
  "(string \<Rightarrow> 'q HistoryItem list \<Rightarrow> 's \<Rightarrow> 's) \<Rightarrow> (string \<times> 'q list \<times> jnum) list \<Rightarrow>
   'q HistoryItem list \<times> 's \<Rightarrow> 'q HistoryItem list \<times> 's" where
  "updateHistory_calls setObject [] hs = hs"
| "updateHistory_calls setObject ((datasourceId, qs, now) # calls) (history, st) =
     updateHistory_calls setObject calls (updateHistory setObject history datasourceId qs now st)"

text \<open>
  Modelled from the spec: the module \<^verbatim>\<open>app/core/store\<close> is not among the sources. The
  spec describes it as "a key-value store supporting get/set/delete by string key": a
  map from keys to values, in which \<^verbatim>\<open>setObject\<close> binds the key to the value.
\<close>

type_synonym 'q store = "string \<Rightarrow> 'q HistoryItem list option"

definition store_setObject :: "string \<Rightarrow> 'q HistoryItem list \<Rightarrow> 'q store \<Rightarrow> 'q store" where
  "store_setObject k v st = st(k \<mapsto> v)"

section \<open>A reference environment\<close>

text \<open>
  One concrete environment, used to run the functions on concrete texts. It implements
  the JSON grammar (numbers exactly, without rounding to a double), \<^verbatim>\<open>JSON.stringify\<close>
  without indentation, \<^verbatim>\<open>decodeURI\<close>, and the rendering of a number with all its
  digits. Characters beyond 8 bits are outside of it: a four-digit character escape
  above \<^verbatim>\<open>00FF\<close> and a percent-escape sequence for such a character are rejected.
  Object keys keep their textual order. The deduplication strategy \<^verbatim>\<open>none\<close> of the logs
  model is taken to be the string \<^verbatim>\<open>none\<close>.
\<close>

definition is_digit :: "char \<Rightarrow> bool" where
  "is_digit c = (c \<in> set ''0123456789'')"

definition digit_val :: "char \<Rightarrow> nat" where
  "digit_val c = of_char c - 48"

definition digits_val :: "string \<Rightarrow> nat" where
  "digits_val ds = foldl (\<lambda>a c. 10 * a + digit_val c) 0 ds"

definition hex_val :: "char \<Rightarrow> nat option" where
  "hex_val c =
     (if is_digit c then Some (digit_val c)
      else if c \<in> set ''abcdef'' then Some (of_char c - 87)
      else if c \<in> set ''ABCDEF'' then Some (of_char c - 55)
      else None)"

definition hex_byte :: "char \<Rightarrow> char \<Rightarrow> nat option" where
  "hex_byte a b =
     (case hex_val a of
        None \<Rightarrow> None
      | Some x \<Rightarrow> (case hex_val b of None \<Rightarrow> None | Some y \<Rightarrow> Some (16 * x + y)))"

definition is_ws :: "char \<Rightarrow> bool" where
  "is_ws c = (of_char c \<in> {32, 9, 10, 13 :: nat})"

definition skip_ws :: "string \<Rightarrow> string" where
  "skip_ws cs = dropWhile is_ws cs"

text \<open>The number with the decimal digits \<open>ds\<close>, scaled by \<open>10 ^ e\<close>, without trailing zeros.\<close>

definition mk_dec :: "bool \<Rightarrow> string \<Rightarrow> int \<Rightarrow> jnum" where
  "mk_dec neg ds e =
     (let z = length (takeWhile (\<lambda>c. c = CHR ''0'') (rev ds));
          sig = take (length ds - z) ds
      in if sig = [] then Dec 0 0
         else Dec (if neg then - int (digits_val sig) else int (digits_val sig)) (e + int z))"

definition parse_fraction :: "string \<Rightarrow> (string \<times> string) option" where
  "parse_fraction cs =
     (case cs of
        [] \<Rightarrow> Some ([], cs)
      | c # r \<Rightarrow>
          if c = CHR ''.'' then
            (if takeWhile is_digit r = [] then None
             else Some (takeWhile is_digit r, dropWhile is_digit r))
          else Some ([], cs))"

definition parse_exponent :: "string \<Rightarrow> (int \<times> string) option" where
  "parse_exponent cs =
     (case cs of
        [] \<Rightarrow> Some (0, cs)
      | c # r \<Rightarrow>
          if c = CHR ''e'' \<or> c = CHR ''E'' then
            (let neg = (r \<noteq> [] \<and> hd r = CHR ''-'');
                 r' = (if r \<noteq> [] \<and> (hd r = CHR ''-'' \<or> hd r = CHR ''+'') then tl r else r);
                 ds = takeWhile is_digit r'
             in if ds = [] then None
                else Some (if neg then - int (digits_val ds) else int (digits_val ds),
                           dropWhile is_digit r'))
          else Some (0, cs))"

definition parse_number :: "string \<Rightarrow> (jv \<times> string) option" where
  "parse_number cs =
     (let neg = (cs \<noteq> [] \<and> hd cs = CHR ''-'');
          r0 = (if neg then tl cs else cs);
          ip = takeWhile is_digit r0
      in if ip = [] \<or> (1 < length ip \<and> hd ip = CHR ''0'') then None
         else case parse_fraction (dropWhile is_digit r0) of
           None \<Rightarrow> None
         | Some (fp, r2) \<Rightarrow>
             (case parse_exponent r2 of
                None \<Rightarrow> None
              | Some (ex, r3) \<Rightarrow> Some (JNum (mk_dec neg (ip @ fp) (ex - int (length fp))), r3)))"

definition unescape :: "char \<Rightarrow> char option" where
  "unescape c =
     (if c = CHR 0x22 \<or> c = CHR 0x5C \<or> c = CHR ''/'' then Some c
      else if c = CHR ''b'' then Some (CHR 0x08)
      else if c = CHR ''f'' then Some (CHR 0x0C)
      else if c = CHR ''n'' then Some (CHR 0x0A)
      else if c = CHR ''r'' then Some (CHR 0x0D)
      else if c = CHR ''t'' then Some (CHR 0x09)
      else None)"

text \<open>The characters of a string literal, after its opening quote.\<close>

fun parse_chars :: "string \<Rightarrow> (string \<times> string) option" where
  "parse_chars [] = None"
| "parse_chars (c # cs) =
     (if c = CHR 0x22 then Some ([], cs)
      else if c = CHR 0x5C then
        (case cs of
           [] \<Rightarrow> None
         | e # r \<Rightarrow>
             if e = CHR ''u'' then
               (case r of
                  a # b # x # y # r' \<Rightarrow>
                    (if a = CHR ''0'' \<and> b = CHR ''0'' then
                       (case hex_byte x y of
                          None \<Rightarrow> None
                        | Some n \<Rightarrow> map_option (\<lambda>(s, t). (char_of n # s, t)) (parse_chars r'))
                     else None)
                | _ \<Rightarrow> None)
             else
               (case unescape e of
                  None \<Rightarrow> None
                | Some d \<Rightarrow> map_option (\<lambda>(s, t). (d # s, t)) (parse_chars r)))
      else if (of_char c :: nat) < 32 then None
      else map_option (\<lambda>(s, t). (c # s, t)) (parse_chars cs))"

definition parse_literal :: "string \<Rightarrow> (jv \<times> string) option" where
  "parse_literal cs =
     (if take 4 cs = ''true'' then Some (JBool True, drop 4 cs)
      else if take 5 cs = ''false'' then Some (JBool False, drop 5 cs)
      else if take 4 cs = ''null'' then Some (JNull, drop 4 cs)
      else parse_number cs)"

text \<open>
  The value parser, with fuel: every call consumes a character, so the length of the text
  (plus one) is enough. A repeated key overwrites the earlier value in place.
\<close>

fun parse_value :: "nat \<Rightarrow> string \<Rightarrow> (jv \<times> string) option"
  and parse_elems :: "nat \<Rightarrow> jv list \<Rightarrow> string \<Rightarrow> (jv \<times> string) option"
  and parse_members :: "nat \<Rightarrow> obj \<Rightarrow> string \<Rightarrow> (jv \<times> string) option" where
  "parse_value 0 cs = None"
| "parse_value (Suc n) cs =
     (case skip_ws cs of
        [] \<Rightarrow> None
      | c # r \<Rightarrow>
          if c = CHR ''['' then
            (case skip_ws r of
               [] \<Rightarrow> None
             | d # r' \<Rightarrow> if d = CHR '']'' then Some (JArr [], r') else parse_elems n [] r)
          else if c = CHR ''{'' then
            (case skip_ws r of
               [] \<Rightarrow> None
             | d # r' \<Rightarrow> if d = CHR ''}'' then Some (JObj [], r') else parse_members n [] r)
          else if c = CHR 0x22 then map_option (\<lambda>(s, t). (JStr s, t)) (parse_chars r)
          else parse_literal (c # r))"
| "parse_elems 0 acc cs = None"
| "parse_elems (Suc n) acc cs =
     (case parse_value n cs of
        None \<Rightarrow> None
      | Some (v, r) \<Rightarrow>
          (case skip_ws r of
             [] \<Rightarrow> None
           | d # r' \<Rightarrow>
               if d = CHR '','' then parse_elems n (acc @ [v]) r'
               else if d = CHR '']'' then Some (JArr (acc @ [v]), r')
               else None))"
| "parse_members 0 acc cs = None"
| "parse_members (Suc n) acc cs =
     (case skip_ws cs of
        [] \<Rightarrow> None
      | q # r \<Rightarrow>
          if q \<noteq> CHR 0x22 then None
          else case parse_chars r of
            None \<Rightarrow> None
          | Some (k, r1) \<Rightarrow>
              (case skip_ws r1 of
                 [] \<Rightarrow> None
               | colon # r2 \<Rightarrow>
                   if colon \<noteq> CHR '':'' then None
                   else case parse_value n r2 of
                     None \<Rightarrow> None
                   | Some (v, r3) \<Rightarrow>
                       (case skip_ws r3 of
                          [] \<Rightarrow> None
                        | d # r' \<Rightarrow>
                            if d = CHR '','' then parse_members n (obj_set k v acc) r'
                            else if d = CHR ''}'' then Some (JObj (obj_set k v acc), r')
                            else None)))"

definition JSON_parse_ref :: "string \<Rightarrow> error + jv" where
  "JSON_parse_ref text =
     (case parse_value (Suc (length text)) text of
        None \<Rightarrow> Inl SyntaxError
      | Some (v, r) \<Rightarrow> if skip_ws r = [] then Inr v else Inl SyntaxError)"

definition hex_char :: "nat \<Rightarrow> char" where
  "hex_char d = ''0123456789abcdef'' ! (d mod 16)"

definition quote_char :: "char \<Rightarrow> string" where
  "quote_char c =
     (if c = CHR 0x22 then [CHR 0x5C, CHR 0x22]
      else if c = CHR 0x5C then [CHR 0x5C, CHR 0x5C]
      else if c = CHR 0x08 then [CHR 0x5C, CHR ''b'']
      else if c = CHR 0x0C then [CHR 0x5C, CHR ''f'']
      else if c = CHR 0x0A then [CHR 0x5C, CHR ''n'']
      else if c = CHR 0x0D then [CHR 0x5C, CHR ''r'']
      else if c = CHR 0x09 then [CHR 0x5C, CHR ''t'']
      else if (of_char c :: nat) < 32 then
        [CHR 0x5C, CHR ''u'', CHR ''0'', CHR ''0'', hex_char (of_char c div 16), hex_char (of_char c)]
      else [c])"

definition quote :: "string \<Rightarrow> string" where
  "quote s = [CHR 0x22] @ concat (map quote_char s) @ [CHR 0x22]"

text \<open>The digits of \<open>m * 10 ^ e\<close>, in full.\<close>

definition show_dec :: "int \<Rightarrow> int \<Rightarrow> string" where
  "show_dec m e =
     (let sign = (if m < 0 then ''-'' else []);
          ds = show_nat (nat \<bar>m\<bar>)
      in if m = 0 then ''0''
         else if 0 \<le> e then sign @ ds @ replicate (nat e) (CHR ''0'')
         else
           let k = nat (- e);
               padded = replicate (Suc k - length ds) (CHR ''0'') @ ds
           in sign @ take (length padded - k) padded @ ''.'' @ drop (length padded - k) padded)"

fun show_jnum :: "jnum \<Rightarrow> string" where
  "show_jnum NaN = ''NaN''"
| "show_jnum (Infinity neg) = (if neg then ''-Infinity'' else ''Infinity'')"
| "show_jnum (Dec m e) = show_dec m e"

text \<open>
  \<^verbatim>\<open>JSON.stringify\<close> of an array or an object: inside an array \<^verbatim>\<open>undefined\<close> is written
  \<^verbatim>\<open>null\<close>, inside an object a property whose value is \<^verbatim>\<open>undefined\<close> is left out, and a
  number that is not finite is written \<^verbatim>\<open>null\<close>.
\<close>

fun JSON_stringify_ref :: "jv \<Rightarrow> string" where
  "JSON_stringify_ref JUndefined = ''null''"
| "JSON_stringify_ref JNull = ''null''"
| "JSON_stringify_ref (JBool b) = (if b then ''true'' else ''false'')"
| "JSON_stringify_ref (JNum NaN) = ''null''"
| "JSON_stringify_ref (JNum (Infinity neg)) = ''null''"
| "JSON_stringify_ref (JNum (Dec m e)) = show_dec m e"
| "JSON_stringify_ref (JStr s) = quote s"
| "JSON_stringify_ref (JArr xs) = ''['' @ join_comma (map JSON_stringify_ref xs) @ '']''"
| "JSON_stringify_ref (JObj ps) =
     ''{'' @ join_comma (map (\<lambda>p. quote (fst p) @ '':'' @ JSON_stringify_ref (snd p))
                             (filter (\<lambda>p. snd p \<noteq> JUndefined) ps)) @ ''}''"

definition uriReserved :: string where
  "uriReserved = '';/?:@&=+$,#''"

text \<open>
  \<^verbatim>\<open>decodeURI\<close>: a percent sign must be followed by two hexadecimal digits; the escape of
  a reserved character is kept as it is written; an escaped byte from 128 on must start
  a well-formed UTF-8 sequence.
\<close>

fun decodeURI_ref :: "string \<Rightarrow> error + string" where
  "decodeURI_ref [] = Inr []"
| "decodeURI_ref (c # cs) =
     (if c \<noteq> CHR ''%'' then
        (case decodeURI_ref cs of Inl e \<Rightarrow> Inl e | Inr r \<Rightarrow> Inr (c # r))
      else case cs of
        a # b # rest \<Rightarrow>
          (case hex_byte a b of
             None \<Rightarrow> Inl URIError
           | Some n \<Rightarrow>
               if n < 128 then
                 (case decodeURI_ref rest of
                    Inl e \<Rightarrow> Inl e
                  | Inr r \<Rightarrow>
                      Inr (if char_of n \<in> set uriReserved then c # a # b # r else char_of n # r))
               else if n = 194 \<or> n = 195 then
                 (case rest of
                    p # x # y # rest' \<Rightarrow>
                      (if p \<noteq> CHR ''%'' then Inl URIError
                       else case hex_byte x y of
                         None \<Rightarrow> Inl URIError
                       | Some m \<Rightarrow>
                           if 128 \<le> m \<and> m < 192 then
                             (case decodeURI_ref rest' of
                                Inl e \<Rightarrow> Inl e
                              | Inr r \<Rightarrow> Inr (char_of ((n - 192) * 64 + (m - 128)) # r))
                           else Inl URIError)
                  | _ \<Rightarrow> Inl URIError)
               else Inl URIError)
      | _ \<Rightarrow> Inl URIError)"

definition ref_env :: js_env where
  "ref_env =
     \<lparr>decodeURI = decodeURI_ref, JSON_parse = JSON_parse_ref,
      JSON_stringify = JSON_stringify_ref, Number_toString = show_jnum,
      LogsDedupStrategy_none = JStr ''none''\<rparr>"

text \<open>Sample readings of the clock and of the random number generator for the calls of
  \<open>generateKey\<close>: 1561000000000 and 0.5 in every round.\<close>

definition sample_readings :: "nat \<Rightarrow> jnum \<times> jnum" where
  "sample_readings index = (Dec 1561 9, Dec 5 (- 1))"

text \<open>
  The spec's words on the color offset: the series count of a transaction is the length
  of its result, and the transactions counted for \<open>transaction\<close> are those standing
  before its first occurrence in \<open>allTransactions\<close> that are of type Graph and done.
  Where \<open>transaction\<close> does not occur in the list, no transaction stands before it.
\<close>

definition seriesCount :: "'m QueryTransaction \<Rightarrow> nat" where
  "seriesCount tx = (case result tx of None \<Rightarrow> 0 | Some r \<Rightarrow> length r)"

definition earlier_done_graphs :: "(ref \<Rightarrow> 'm QueryTransaction) \<Rightarrow> ref \<Rightarrow> ref list \<Rightarrow> ref list" where
  "earlier_done_graphs H transaction allTransactions =
     (if transaction \<in> set allTransactions then
        filter (\<lambda>other. resultType (H other) = Graph \<and> done' (H other))
          (takeWhile (\<lambda>other. other \<noteq> transaction) allTransactions)
      else [])"

text \<open>A sample transaction with the given type, done flag and result, and a sample heap
  of three transactions: two done Graph transactions with 2 and 3 series, and the
  current one, which is equal to the first in every field.\<close>

definition sample_transaction :: "ResultType \<Rightarrow> bool \<Rightarrow> jv list option \<Rightarrow> unit QueryTransaction" where
  "sample_transaction rt d r =
     \<lparr>queries = [],
      options = \<lparr>interval = JStr ''1s'', intervalMs = JNum (Dec 1 3), panelId = ''time_series-'',
                 targets = [], range' = \<lparr>from' = (), to' = (), raw = JNull\<rparr>, rangeRaw = JNull,
                 scopedVars = JObj [], maxDataPoints = JUndefined\<rparr>,
      resultType = rt, scanning = False, id' = ''Q-1561000000000-0.5-0'', done' = d,
      latency = 0, result = r\<rparr>"

definition sample_heap :: "ref \<Rightarrow> unit QueryTransaction" where
  "sample_heap r =
     (if r = 1 then sample_transaction Graph True (Some [JNull, JNull, JNull])
      else sample_transaction Graph True (Some [JNull, JNull]))"

text \<open>The same heap after a failed query: the first transaction is done and has no
  result.\<close>

definition sample_failed_heap :: "ref \<Rightarrow> unit QueryTransaction" where
  "sample_failed_heap r =
     (if r = 0 then sample_transaction Graph True None else sample_heap r)"

section \<open>Results\<close>

subsection \<open>Helper facts\<close>

lemma bindE_Inr [simp]: "bindE (Inr x) f = f x"
  by (simp add: bindE_def)

lemma bindE_Inl [simp]: "bindE (Inl e) f = Inl e"
  by (simp add: bindE_def)

lemma filterE_append:
  "filterE p (xs @ ys) =
     bindE (filterE p xs) (\<lambda>a. bindE (filterE p ys) (\<lambda>b. Inr (a @ b)))"
  by (induction xs) (auto simp: bindE_def split: sum.splits)

lemma filterE_skip: "p x = Inr False \<Longrightarrow> filterE p (x # xs) = filterE p xs"
  by (cases "filterE p xs") simp_all

lemma filterE_keep: "\<forall>x\<in>set xs. p x = Inr True \<Longrightarrow> filterE p xs = Inr xs"
  by (induction xs) auto

lemma filterE_drop: "\<forall>x\<in>set xs. p x = Inr False \<Longrightarrow> filterE p xs = Inr []"
  by (induction xs) auto

lemma hasOwnProperty_error: "hasOwnProperty v k = Inl e \<Longrightarrow> e = TypeError"
  by (cases v) (auto split: if_splits)

lemma someE_error:
  "someE p ks = Inl e \<Longrightarrow> (\<And>k e'. p k = Inl e' \<Longrightarrow> e' = TypeError) \<Longrightarrow> e = TypeError"
  by (induction ks) (auto split: sum.splits if_splits)

lemma isMetricSegment_error: "isMetricSegment v = Inl e \<Longrightarrow> e = TypeError"
  unfolding isMetricSegment_def by (erule someE_error) (rule hasOwnProperty_error)

lemma isMetricSegment_null: "isMetricSegment JNull = Inl TypeError"
  by (simp add: isMetricSegment_def metricProperties_def)

lemma isMetricSegment_obj:
  "''hasOwnProperty'' \<notin> fst ` set ps \<Longrightarrow>
   isMetricSegment (JObj ps) =
     Inr (''expr'' \<in> fst ` set ps \<or> ''target'' \<in> fst ` set ps \<or> ''datasource'' \<in> fst ` set ps)"
  by (simp add: isMetricSegment_def metricProperties_def)

lemma parse_ui_segment:
  "parse_ui E (JObj [(''ui'', JArr [g, l, tb, dd])]) =
     Inr (JObj [(''showingGraph'', g), (''showingLogs'', l),
                (''showingTable'', tb), (''dedupStrategy'', dd)])"
  by (simp add: parse_ui_def obj_get_def)

lemma compactArray_urlState:
  "compactArray (urlState ds qs f t g l tb dd) =
     Inr (JArr ([f, t, ds] @ qs @
                [JObj [(''ui'', JArr [JBool (truthy g), JBool (truthy l), JBool (truthy tb), dd])]]))"
  by (simp add: compactArray_def urlState_def obj_get_def)





subsection \<open>Malformed and too short inputs\<close>



subsection \<open>Round trip through the compact form\<close>

text \<open>
  Claim C1, amended. Take a session state whose UI toggles are booleans, in which every
  query is an object with at least one of the fields \<^verbatim>\<open>expr\<close>, \<^verbatim>\<open>target\<close>, \<^verbatim>\<open>datasource\<close>
  and with no field named \<^verbatim>\<open>ui\<close> or \<^verbatim>\<open>hasOwnProperty\<close>, and whose compact text is read
  back by URI-decoding and JSON-parsing as the array that was written. Then
  \<open>parseUrlState\<close> of the compact serialization returns exactly this state: the same
  range, datasource, queries and UI. A query without any of the three fields is dropped
  by the parser, which is why the claim needs the condition on the queries.
\<close>

theorem url_state_round_trip:
  assumes queries:
    "\<forall>q\<in>set qs. \<exists>ps. q = JObj ps \<and>
        (''expr'' \<in> fst ` set ps \<or> ''target'' \<in> fst ` set ps \<or> ''datasource'' \<in> fst ` set ps) \<and>
        ''ui'' \<notin> fst ` set ps \<and> ''hasOwnProperty'' \<notin> fst ` set ps"
    and readback:
    "safeParseJson E (Some (JSON_stringify E
        (JArr ([f, t, ds] @ qs @ [JObj [(''ui'', JArr [JBool g, JBool l, JBool tb, dd])]])))) =
      JArr ([f, t, ds] @ qs @ [JObj [(''ui'', JArr [JBool g, JBool l, JBool tb, dd])]])"
  shows "bindE (serializeStateToUrlParam E (urlState ds qs f t (JBool g) (JBool l) (JBool tb) dd) True)
               (\<lambda>txt. parseUrlState E (Some txt)) =
         Inr (urlState ds qs f t (JBool g) (JBool l) (JBool tb) dd)"
proof -
  let ?u = "JObj [(''ui'', JArr [JBool g, JBool l, JBool tb, dd])]"
  have mu: "isMetricSegment q = Inr True \<and> isUISegment q = Inr False" if "q \<in> set qs" for q
  proof -
    from queries that obtain ps where "q = JObj ps"
      "''expr'' \<in> fst ` set ps \<or> ''target'' \<in> fst ` set ps \<or> ''datasource'' \<in> fst ` set ps"
      "''ui'' \<notin> fst ` set ps" "''hasOwnProperty'' \<notin> fst ` set ps"
      by blast
    then show ?thesis
      by (simp add: isMetricSegment_obj isUISegment_def)
  qed
  then have m: "\<forall>q\<in>set qs. isMetricSegment q = Inr True"
    and u: "\<forall>q\<in>set qs. isUISegment q = Inr False"
    by blast+
  have "filterE isMetricSegment (qs @ [?u]) = Inr qs"
    using m by (simp add: filterE_append filterE_keep isMetricSegment_obj)
  moreover have "filterE isUISegment (qs @ [?u]) = Inr [?u]"
    using u by (simp add: filterE_append filterE_drop isUISegment_def)
  ultimately have "parseUrlState E (Some (JSON_stringify E (JArr ([f, t, ds] @ qs @ [?u])))) =
      Inr (urlState ds qs f t (JBool g) (JBool l) (JBool tb) dd)"
    using readback by (simp add: parseUrlState_def parse_ui_segment urlState_def)
  then show ?thesis
    by (simp add: serializeStateToUrlParam_def compactArray_urlState)
qed

theorem url_state_round_trip_witness:
  "serializeStateToUrlParam ref_env
     (urlState (JStr ''Prometheus'') [JObj [(''expr'', JStr ''up'')]] (JStr ''now-1h'') (JStr ''now'')
        (JBool True) (JBool False) (JBool True) (JStr ''none'')) True =
     Inr ''[\"now-1h\",\"now\",\"Prometheus\",{\"expr\":\"up\"},{\"ui\":[true,false,true,\"none\"]}]'' \<and>
   bindE (serializeStateToUrlParam ref_env
            (urlState (JStr ''Prometheus'') [JObj [(''expr'', JStr ''up'')]] (JStr ''now-1h'') (JStr ''now'')
               (JBool True) (JBool False) (JBool True) (JStr ''none'')) True)
         (\<lambda>txt. parseUrlState ref_env (Some txt)) =
     Inr (urlState (JStr ''Prometheus'') [JObj [(''expr'', JStr ''up'')]] (JStr ''now-1h'') (JStr ''now'')
            (JBool True) (JBool False) (JBool True) (JStr ''none''))"
proof -
  have q: "\<forall>q\<in>set [JObj [(''expr'', JStr ''up'')]]. \<exists>ps. q = JObj ps \<and>
        (''expr'' \<in> fst ` set ps \<or> ''target'' \<in> fst ` set ps \<or> ''datasource'' \<in> fst ` set ps) \<and>
        ''ui'' \<notin> fst ` set ps \<and> ''hasOwnProperty'' \<notin> fst ` set ps"
    by simp
  have r: "safeParseJson ref_env (Some (JSON_stringify ref_env
        (JArr ([JStr ''now-1h'', JStr ''now'', JStr ''Prometheus''] @ [JObj [(''expr'', JStr ''up'')]] @
               [JObj [(''ui'', JArr [JBool True, JBool False, JBool True, JStr ''none''])]])))) =
      JArr ([JStr ''now-1h'', JStr ''now'', JStr ''Prometheus''] @ [JObj [(''expr'', JStr ''up'')]] @
            [JObj [(''ui'', JArr [JBool True, JBool False, JBool True, JStr ''none''])]])"
    by code_simp
  have s: "serializeStateToUrlParam ref_env
     (urlState (JStr ''Prometheus'') [JObj [(''expr'', JStr ''up'')]] (JStr ''now-1h'') (JStr ''now'')
        (JBool True) (JBool False) (JBool True) (JStr ''none'')) True =
     Inr ''[\"now-1h\",\"now\",\"Prometheus\",{\"expr\":\"up\"},{\"ui\":[true,false,true,\"none\"]}]''"
    by code_simp
  show ?thesis
    using url_state_round_trip [OF q r] s by simp
qed

text \<open>
  Claim C1 as stated fails: a query that has none of the fields \<^verbatim>\<open>expr\<close>, \<^verbatim>\<open>target\<close>,
  \<^verbatim>\<open>datasource\<close> is written into the compact text and is not read back.
\<close>

theorem url_state_round_trip_counterexample:
  "serializeStateToUrlParam ref_env
     (urlState (JStr ''Elastic'') [JObj [(''refId'', JStr ''A''), (''query'', JStr ''status:500'')]]
        (JStr ''now-1h'') (JStr ''now'') (JBool True) (JBool False) (JBool True) (JStr ''none'')) True =
     Inr ''[\"now-1h\",\"now\",\"Elastic\",{\"refId\":\"A\",\"query\":\"status:500\"},{\"ui\":[true,false,true,\"none\"]}]'' \<and>
   parseUrlState ref_env
     (Some ''[\"now-1h\",\"now\",\"Elastic\",{\"refId\":\"A\",\"query\":\"status:500\"},{\"ui\":[true,false,true,\"none\"]}]'') =
     Inr (urlState (JStr ''Elastic'') []
            (JStr ''now-1h'') (JStr ''now'') (JBool True) (JBool False) (JBool True) (JStr ''none'')) \<and>
   urlState (JStr ''Elastic'') []
     (JStr ''now-1h'') (JStr ''now'') (JBool True) (JBool False) (JBool True) (JStr ''none'') \<noteq>
   urlState (JStr ''Elastic'') [JObj [(''refId'', JStr ''A''), (''query'', JStr ''status:500'')]]
     (JStr ''now-1h'') (JStr ''now'') (JBool True) (JBool False) (JBool True) (JStr ''none'')"
proof (intro conjI)
  show "serializeStateToUrlParam ref_env
     (urlState (JStr ''Elastic'') [JObj [(''refId'', JStr ''A''), (''query'', JStr ''status:500'')]]
        (JStr ''now-1h'') (JStr ''now'') (JBool True) (JBool False) (JBool True) (JStr ''none'')) True =
     Inr ''[\"now-1h\",\"now\",\"Elastic\",{\"refId\":\"A\",\"query\":\"status:500\"},{\"ui\":[true,false,true,\"none\"]}]''"
    by code_simp
  show "parseUrlState ref_env
     (Some ''[\"now-1h\",\"now\",\"Elastic\",{\"refId\":\"A\",\"query\":\"status:500\"},{\"ui\":[true,false,true,\"none\"]}]'') =
     Inr (urlState (JStr ''Elastic'') []
            (JStr ''now-1h'') (JStr ''now'') (JBool True) (JBool False) (JBool True) (JStr ''none''))"
    by code_simp
  show "urlState (JStr ''Elastic'') []
     (JStr ''now-1h'') (JStr ''now'') (JBool True) (JBool False) (JBool True) (JStr ''none'') \<noteq>
   urlState (JStr ''Elastic'') [JObj [(''refId'', JStr ''A''), (''query'', JStr ''status:500'')]]
     (JStr ''now-1h'') (JStr ''now'') (JBool True) (JBool False) (JBool True) (JStr ''none'')"
    by (simp add: urlState_def)
qed

text \<open>
  The condition on the text is needed as well: a percent sign in a query makes
  \<^verbatim>\<open>decodeURI\<close> throw on the serialized text, and the parser answers with the default
  state.
\<close>

lemma url_state_round_trip_percent:
  "serializeStateToUrlParam ref_env
     (urlState (JStr ''Prometheus'') [JObj [(''expr'', JStr ''up % 2'')]]
        (JStr ''now-1h'') (JStr ''now'') (JBool True) (JBool False) (JBool True) (JStr ''none'')) True =
     Inr ''[\"now-1h\",\"now\",\"Prometheus\",{\"expr\":\"up % 2\"},{\"ui\":[true,false,true,\"none\"]}]'' \<and>
   parseUrlState ref_env
     (Some ''[\"now-1h\",\"now\",\"Prometheus\",{\"expr\":\"up % 2\"},{\"ui\":[true,false,true,\"none\"]}]'') =
     Inr (errorResult ref_env)"
  by (intro conjI; code_simp)

subsection \<open>Segments that are not objects\<close>

lemma filterE_null:
  "JNull \<in> set segs \<Longrightarrow> filterE isMetricSegment segs = Inl TypeError"
proof (induction segs)
  case Nil
  then show ?case by simp
next
  case (Cons x xs)
  show ?case
  proof (cases "isMetricSegment x")
    case (Inl e)
    then show ?thesis by (simp add: isMetricSegment_error)
  next
    case (Inr b)
    with Cons.prems have "JNull \<in> set xs"
      by (auto simp: isMetricSegment_null)
    with Cons.IH Inr show ?thesis by simp
  qed
qed

text \<open>Whatever the environment: a \<^verbatim>\<open>null\<close> after the header makes the parser throw.\<close>

lemma parseUrlState_null_segment:
  assumes "safeParseJson E initial = JArr xs" and "3 < length xs" and "JNull \<in> set (drop 3 xs)"
  shows "parseUrlState E initial = Inl TypeError"
  using assms by (simp add: parseUrlState_def filterE_null)

text \<open>
  Claim C3. \<open>parseUrlState\<close> is meant to return a value on every input text. It does not:
  on a compact array with a \<^verbatim>\<open>null\<close> after the three header positions, the call
  \<^verbatim>\<open>segment.hasOwnProperty(prop)\<close> in \<open>isMetricSegment\<close> throws a TypeError, outside of
  the \<^verbatim>\<open>try\<close> block of \<open>safeParseJson\<close>.
\<close>

theorem parseUrlState_throws_on_null:
  "parseUrlState ref_env (Some ''[\"now-1h\",\"now\",\"Prometheus\",null]'') = Inl TypeError"
  by code_simp

text \<open>
  A trailing element without any of the four fields is left out of the result as long as
  reading its properties does not throw: the result is the one of the same array without
  that element.
\<close>

lemma parseUrlState_ignores_segment:
  assumes with_x: "safeParseJson E i1 = JArr (hd3 @ pre @ [x] @ post)"
    and without_x: "safeParseJson E i2 = JArr (hd3 @ pre @ post)"
    and header: "length hd3 = 3"
    and others: "pre @ post \<noteq> []"
    and inert: "isMetricSegment x = Inr False" "isUISegment x = Inr False"
  shows "parseUrlState E i1 = parseUrlState E i2"
proof -
  have "filterE p (pre @ [x] @ post) = filterE p (pre @ post)" if "p x = Inr False" for p
    using that by (simp add: filterE_append filterE_skip del: filterE.simps)
  with inert have "filterE isMetricSegment (pre @ [x] @ post) = filterE isMetricSegment (pre @ post)"
    "filterE isUISegment (pre @ [x] @ post) = filterE isUISegment (pre @ post)"
    by blast+
  moreover have "length pre + length post > 0" using others by (cases pre) auto
  ultimately show ?thesis
    using with_x without_x header
    by (auto simp: parseUrlState_def nth_append Let_def)
qed

text \<open>
  Claim C9. A trailing element with none of the fields \<^verbatim>\<open>expr\<close>, \<^verbatim>\<open>target\<close>,
  \<^verbatim>\<open>datasource\<close>, \<^verbatim>\<open>ui\<close> should be left out silently. The number \<^verbatim>\<open>7\<close> is; a \<^verbatim>\<open>null\<close> in
  the same place is not, and neither is an object whose only field is named
  \<^verbatim>\<open>hasOwnProperty\<close>: the parser throws a TypeError instead of returning the state
  without the element.
\<close>

theorem parseUrlState_trailing_null_not_omitted:
  "parseUrlState ref_env
     (Some ''[\"now-1h\",\"now\",\"Prometheus\",{\"expr\":\"up\"},7,{\"ui\":[true,false,true,\"none\"]}]'') =
     Inr (urlState (JStr ''Prometheus'') [JObj [(''expr'', JStr ''up'')]] (JStr ''now-1h'') (JStr ''now'')
            (JBool True) (JBool False) (JBool True) (JStr ''none'')) \<and>
   parseUrlState ref_env
     (Some ''[\"now-1h\",\"now\",\"Prometheus\",{\"expr\":\"up\"},null,{\"ui\":[true,false,true,\"none\"]}]'') =
     Inl TypeError \<and>
   parseUrlState ref_env
     (Some ''[\"now-1h\",\"now\",\"Prometheus\",{\"expr\":\"up\"},{\"hasOwnProperty\":1},{\"ui\":[true,false,true,\"none\"]}]'') =
     Inl TypeError"
  by (intro conjI; code_simp)

subsection \<open>Non-empty queries\<close>

lemma obj_get_absent: "k \<notin> fst ` set ps \<Longrightarrow> obj_get ps k = JUndefined"
  by (simp add: obj_get_def map_of_eq_None_iff [THEN iffD2])

lemma count_split:
  "distinct ks \<Longrightarrow> a \<noteq> b \<Longrightarrow>
   length (filter P ks) =
     length (filter P (filter (\<lambda>k. k \<noteq> a \<and> k \<noteq> b) ks)) +
     (if a \<in> set ks \<and> P a then 1 else 0) + (if b \<in> set ks \<and> P b then 1 else 0)"
  by (induction ks) auto

lemma truthy_fields_count:
  assumes "distinct (Object_keys q)"
  shows "length (filter truthy (map (\<lambda>k. obj_get q k) (Object_keys q))) =
         truthy_fields_besides_keys q +
         (if truthy (obj_get q ''key'') then 1 else 0) +
         (if truthy (obj_get q ''refId'') then 1 else 0)"
proof -
  have in_keys: "truthy (obj_get q k) \<Longrightarrow> k \<in> set (Object_keys q)" for k
    by (cases "k \<in> fst ` set q") (auto simp: Object_keys_def obj_get_absent)
  have "length (filter truthy (map (\<lambda>k. obj_get q k) (Object_keys q))) =
        length (filter (\<lambda>k. truthy (obj_get q k)) (Object_keys q))"
    by (simp add: filter_map comp_def)
  also have "\<dots> = truthy_fields_besides_keys q +
      (if ''key'' \<in> set (Object_keys q) \<and> truthy (obj_get q ''key'') then 1 else 0) +
      (if ''refId'' \<in> set (Object_keys q) \<and> truthy (obj_get q ''refId'') then 1 else 0)"
    unfolding truthy_fields_besides_keys_def
    by (rule count_split [OF assms]) simp
  finally show ?thesis using in_keys by auto
qed

text \<open>
  Claim C5, amended. For every list of query objects (each listing a field once),
  \<open>hasNonEmptyQuery\<close> returns true if and only if at least one query has more than two
  fields with truthy values, its \<^verbatim>\<open>key\<close> and \<^verbatim>\<open>refId\<close> counted among them: the truthy
  fields besides \<^verbatim>\<open>key\<close> and \<^verbatim>\<open>refId\<close>, plus one for a truthy \<^verbatim>\<open>key\<close>, plus one for a
  truthy \<^verbatim>\<open>refId\<close>, exceed two. For a query that carries both, one further field with a
  truthy value is enough.
\<close>

theorem hasNonEmptyQuery_counts_all_fields:
  assumes "\<forall>q\<in>set qs. distinct (Object_keys q)"
  shows "hasNonEmptyQuery qs \<longleftrightarrow>
         (\<exists>q\<in>set qs. 2 < truthy_fields_besides_keys q +
                            (if truthy (obj_get q ''key'') then 1 else 0) +
                            (if truthy (obj_get q ''refId'') then 1 else 0))"
proof -
  have "(2 < length (filter truthy (map (\<lambda>k. obj_get q k) (Object_keys q)))) =
        (2 < truthy_fields_besides_keys q +
               (if truthy (obj_get q ''key'') then 1 else 0) +
               (if truthy (obj_get q ''refId'') then 1 else 0))" if "q \<in> set qs" for q
    using that assms by (simp only: truthy_fields_count)
  then show ?thesis
    unfolding hasNonEmptyQuery_def list_ex_iff by blast
qed

theorem hasNonEmptyQuery_counts_all_fields_witness:
  "distinct (Object_keys [(''refId'', JStr ''A''), (''key'', JStr ''Q-1-0.5-0''), (''expr'', JStr [])]) \<and>
   \<not> hasNonEmptyQuery [[(''refId'', JStr ''A''), (''key'', JStr ''Q-1-0.5-0''), (''expr'', JStr [])]]"
proof -
  have d: "\<forall>q\<in>set [[(''refId'', JStr ''A''), (''key'', JStr ''Q-1-0.5-0''), (''expr'', JStr [])]].
             distinct (Object_keys q)"
    by (simp add: Object_keys_def)
  show ?thesis
    using hasNonEmptyQuery_counts_all_fields [OF d]
    by (simp add: truthy_fields_besides_keys_def Object_keys_def obj_get_def)
qed

text \<open>
  Claim C5 as stated fails: a query with a \<^verbatim>\<open>refId\<close>, a \<^verbatim>\<open>key\<close> and one more field has a
  single truthy field besides \<^verbatim>\<open>key\<close> and \<^verbatim>\<open>refId\<close>, not more than two, and yet the
  function returns true.
\<close>

theorem hasNonEmptyQuery_counterexample:
  "hasNonEmptyQuery [[(''refId'', JStr ''A''), (''key'', JStr ''Q-1-0.5-0''), (''expr'', JStr ''up'')]] \<and>
   truthy_fields_besides_keys
     [(''refId'', JStr ''A''), (''key'', JStr ''Q-1-0.5-0''), (''expr'', JStr ''up'')] = 1"
  by (simp add: hasNonEmptyQuery_def truthy_fields_besides_keys_def Object_keys_def obj_get_def)

subsection \<open>History\<close>

lemma fold_prepend:
  "fold (\<lambda>q h. \<lparr>query = q, ts = now\<rparr> # h) qs h = rev (map (\<lambda>q. \<lparr>query = q, ts = now\<rparr>) qs) @ h"
  by (induction qs arbitrary: h) auto

lemma updateHistory_fst:
  "fst (updateHistory setObject history d qs now st) =
     take 100 (rev (map (\<lambda>q. \<lparr>query = q, ts = now\<rparr>) qs) @ history)"
  by (simp add: updateHistory_def fold_prepend MAX_HISTORY_ITEMS_def Let_def)

lemma updateHistory_snd:
  "snd (updateHistory setObject history d qs now st) =
     setObject (''grafana.explore.history.'' @ d) (fst (updateHistory setObject history d qs now st)) st"
  by (simp add: updateHistory_def Let_def)

lemma updateHistory_calls_bounded:
  "length history \<le> 100 \<Longrightarrow>
   length (fst (updateHistory_calls setObject calls (history, st))) \<le> 100"
proof (induction calls arbitrary: history st)
  case Nil
  then show ?case by simp
next
  case (Cons c calls)
  obtain d qs now where c: "c = (d, qs, now)"
    by (cases c)
  obtain h' st' where u: "updateHistory setObject history d qs now st = (h', st')"
    by (cases "updateHistory setObject history d qs now st")
  then have "h' = fst (updateHistory setObject history d qs now st)"
    by simp
  then have "length h' \<le> 100"
    by (simp add: updateHistory_fst)
  then show ?case
    using Cons.IH c u by simp
qed

text \<open>
  Claim C6. For every history list and query batch, the list that \<open>updateHistory\<close>
  returns has at most 100 items; it is the first 100 items of: the new items, in the
  reverse of their input order and all stamped with the one timestamp read, followed
  by the previous items in their order. After any number of successive calls (one or
  more, each fed the list returned before) the list has at most 100 items.
\<close>

theorem updateHistory_bounded_newest_first:
  "length (fst (updateHistory setObject history d qs now st)) \<le> 100 \<and>
   fst (updateHistory setObject history d qs now st) =
     take 100 (rev (map (\<lambda>q. \<lparr>query = q, ts = now\<rparr>) qs) @ history) \<and>
   length (fst (updateHistory_calls setObject ((d, qs, now) # calls) (history, st))) \<le> 100"
proof (intro conjI)
  show b: "length (fst (updateHistory setObject history d qs now st)) \<le> 100"
    by (simp add: updateHistory_fst)
  show "fst (updateHistory setObject history d qs now st) =
     take 100 (rev (map (\<lambda>q. \<lparr>query = q, ts = now\<rparr>) qs) @ history)"
    by (rule updateHistory_fst)
  obtain h' st' where u: "updateHistory setObject history d qs now st = (h', st')"
    by (cases "updateHistory setObject history d qs now st")
  with b have "length h' \<le> 100"
    by simp
  then have "length (fst (updateHistory_calls setObject calls (h', st'))) \<le> 100"
    by (rule updateHistory_calls_bounded)
  with u show "length (fst (updateHistory_calls setObject ((d, qs, now) # calls) (history, st))) \<le> 100"
    by simp
qed

text \<open>
  Claim C10. Every call of \<open>updateHistory\<close> writes the store once, with the key
  \<^verbatim>\<open>grafana.explore.history.\<close> followed by the datasource id and with the list that it
  returns, so that a key-value store holds the returned list under that key afterwards.
  With an empty batch the store is written all the same, and the value returned and
  stored is the input history cut to its first 100 items.
\<close>

theorem updateHistory_persists_returned:
  "snd (updateHistory setObject history d qs now st) =
     setObject (''grafana.explore.history.'' @ d) (fst (updateHistory setObject history d qs now st)) st \<and>
   snd (updateHistory store_setObject history d qs now m) (''grafana.explore.history.'' @ d) =
     Some (fst (updateHistory store_setObject history d qs now m)) \<and>
   updateHistory setObject history d [] now st =
     (take 100 history, setObject (''grafana.explore.history.'' @ d) (take 100 history) st) \<and>
   snd (updateHistory store_setObject history d [] now m) (''grafana.explore.history.'' @ d) =
     Some (take 100 history)"
proof (intro conjI)
  show "snd (updateHistory setObject history d qs now st) =
     setObject (''grafana.explore.history.'' @ d) (fst (updateHistory setObject history d qs now st)) st"
    by (rule updateHistory_snd)
  show "snd (updateHistory store_setObject history d qs now m) (''grafana.explore.history.'' @ d) =
     Some (fst (updateHistory store_setObject history d qs now m))"
    by (simp add: updateHistory_snd store_setObject_def)
  show "updateHistory setObject history d [] now st =
     (take 100 history, setObject (''grafana.explore.history.'' @ d) (take 100 history) st)"
    by (simp add: updateHistory_def MAX_HISTORY_ITEMS_def Let_def)
  then show "snd (updateHistory store_setObject history d [] now m) (''grafana.explore.history.'' @ d) =
     Some (take 100 history)"
    by (simp add: updateHistory_def MAX_HISTORY_ITEMS_def Let_def store_setObject_def)
qed

subsection \<open>Reference ids\<close>

lemma obj_get_set: "obj_get (obj_set k v ps) k' = (if k' = k then v else obj_get ps k')"
  by (simp add: obj_get_def obj_set_def update_conv')

lemma ensureQueries_loop_length:
  "length (ensureQueries_loop E rd qs i acc) = length acc + length qs"
  by (induction qs arbitrary: i acc) (auto simp: Let_def)

lemma ensureQueries_loop_prefix:
  "take (length acc) (ensureQueries_loop E rd qs i acc) = acc"
proof (induction qs arbitrary: i acc)
  case Nil
  then show ?case by simp
next
  case (Cons q rest)
  define new where "new = obj_set ''key'' (JStr (generateKey E (rd i) i))
      (obj_set ''refId'' (if \<not> truthy (obj_get q ''refId'') then getNextRefIdChar acc
                         else obj_get q ''refId'') q)"
  have step: "ensureQueries_loop E rd (q # rest) i acc =
      ensureQueries_loop E rd rest (Suc i) (acc @ [new])"
    by (simp add: new_def Let_def)
  have "take (length (acc @ [new])) (ensureQueries_loop E rd rest (Suc i) (acc @ [new])) =
      acc @ [new]"
    by (rule Cons.IH)
  then have "take (length acc)
      (take (length (acc @ [new])) (ensureQueries_loop E rd rest (Suc i) (acc @ [new]))) = acc"
    by simp
  then show ?case
    unfolding step by (simp add: min_def)
qed

lemma ensureQueries_loop_refId:
  "k < length qs \<Longrightarrow>
   obj_get (ensureQueries_loop E rd qs i acc ! (length acc + k)) ''refId'' =
     (if truthy (obj_get (qs ! k) ''refId'') then obj_get (qs ! k) ''refId''
      else getNextRefIdChar (take (length acc + k) (ensureQueries_loop E rd qs i acc)))"
proof (induction qs arbitrary: i acc k)
  case Nil
  then show ?case by simp
next
  case (Cons q rest)
  define new where "new = obj_set ''key'' (JStr (generateKey E (rd i) i))
      (obj_set ''refId'' (if \<not> truthy (obj_get q ''refId'') then getNextRefIdChar acc
                         else obj_get q ''refId'') q)"
  let ?out = "ensureQueries_loop E rd (q # rest) i acc"
  have step: "?out = ensureQueries_loop E rd rest (Suc i) (acc @ [new])"
    by (simp add: new_def Let_def)
  show ?case
  proof (cases k)
    case 0
    have "take (length (acc @ [new])) ?out = acc @ [new]"
      unfolding step by (rule ensureQueries_loop_prefix)
    then have "take (Suc (length acc)) ?out ! length acc = new"
      by simp
    then have at: "?out ! length acc = new"
      by simp
    have pre: "take (length acc) ?out = acc"
      by (rule ensureQueries_loop_prefix)
    have "obj_get new ''refId'' =
        (if truthy (obj_get q ''refId'') then obj_get q ''refId'' else getNextRefIdChar acc)"
      by (simp add: new_def obj_get_set)
    with 0 at pre show ?thesis
      by (simp del: ensureQueries_loop.simps)
  next
    case (Suc k')
    with Cons.prems have "k' < length rest"
      by simp
    from Cons.IH [OF this, of "Suc i" "acc @ [new]"] show ?thesis
      unfolding step using Suc by simp
  qed
qed

lemma find_Some_holds: "find P xs = Some x \<Longrightarrow> x \<in> set xs \<and> P x"
  by (induction xs) (auto split: if_splits)

lemma getNextRefIdChar_cases:
  "getNextRefIdChar qs = JUndefined \<or>
   (\<exists>l. getNextRefIdChar qs = JStr [l] \<and> l \<in> set refIdLetters \<and>
        (\<forall>q\<in>set qs. obj_get q ''refId'' \<noteq> JStr [l]))"
proof (cases "find (\<lambda>l. \<forall>q\<in>set qs. obj_get q ''refId'' \<noteq> JStr [l]) refIdLetters")
  case None
  then show ?thesis by (simp add: getNextRefIdChar_def)
next
  case (Some l)
  from find_Some_holds [OF this] Some show ?thesis
    by (simp add: getNextRefIdChar_def)
qed

text \<open>
  Claim C2, amended. For every non-empty input list, \<open>ensureQueries\<close> returns one query
  per input query. A query's existing non-empty (truthy) \<^verbatim>\<open>refId\<close> is kept. A query
  without one gets what \<open>getNextRefIdChar\<close> answers for the queries before it in the
  output batch: the first letter none of them carries, so that, unless the letters are
  used up, its \<^verbatim>\<open>refId\<close> differs from the \<^verbatim>\<open>refId\<close> of every earlier query of the batch.
  Nothing is said about two queries that both arrive with a \<^verbatim>\<open>refId\<close>, nor about a
  query whose own \<^verbatim>\<open>refId\<close> equals a letter allocated before it: they keep what they have.
\<close>

theorem ensureQueries_refIds:
  assumes "qs \<noteq> []"
  shows "length (ensureQueries E rd (Some qs)) = length qs \<and>
    (\<forall>i<length qs. truthy (obj_get (qs ! i) ''refId'') \<longrightarrow>
        obj_get (ensureQueries E rd (Some qs) ! i) ''refId'' = obj_get (qs ! i) ''refId'') \<and>
    (\<forall>i<length qs. \<not> truthy (obj_get (qs ! i) ''refId'') \<longrightarrow>
        obj_get (ensureQueries E rd (Some qs) ! i) ''refId'' =
          getNextRefIdChar (take i (ensureQueries E rd (Some qs))) \<and>
        (obj_get (ensureQueries E rd (Some qs) ! i) ''refId'' = JUndefined \<or>
         (\<forall>j<i. obj_get (ensureQueries E rd (Some qs) ! j) ''refId'' \<noteq>
                 obj_get (ensureQueries E rd (Some qs) ! i) ''refId'')))"
proof -
  let ?out = "ensureQueries E rd (Some qs)"
  have out: "?out = ensureQueries_loop E rd qs 0 []"
    using assms by (simp add: ensureQueries_def)
  have len: "length ?out = length qs"
    by (simp add: out ensureQueries_loop_length)
  have refId: "obj_get (?out ! i) ''refId'' =
     (if truthy (obj_get (qs ! i) ''refId'') then obj_get (qs ! i) ''refId''
      else getNextRefIdChar (take i ?out))" if "i < length qs" for i
    using ensureQueries_loop_refId [OF that, of E rd 0 "[]"] by (simp add: out)
  have fresh: "obj_get (?out ! i) ''refId'' = JUndefined \<or>
      (\<forall>j<i. obj_get (?out ! j) ''refId'' \<noteq> obj_get (?out ! i) ''refId'')"
    if i: "i < length qs" and missing: "\<not> truthy (obj_get (qs ! i) ''refId'')" for i
  proof -
    have eq: "obj_get (?out ! i) ''refId'' = getNextRefIdChar (take i ?out)"
      using refId [OF i] missing by simp
    from getNextRefIdChar_cases [of "take i ?out"] show ?thesis
    proof
      assume "getNextRefIdChar (take i ?out) = JUndefined"
      with eq show ?thesis by simp
    next
      assume "\<exists>l. getNextRefIdChar (take i ?out) = JStr [l] \<and> l \<in> set refIdLetters \<and>
                  (\<forall>q\<in>set (take i ?out). obj_get q ''refId'' \<noteq> JStr [l])"
      then obtain l where l: "getNextRefIdChar (take i ?out) = JStr [l]"
        "\<forall>q\<in>set (take i ?out). obj_get q ''refId'' \<noteq> JStr [l]"
        by blast
      have "obj_get (?out ! j) ''refId'' \<noteq> JStr [l]" if "j < i" for j
      proof -
        from that i len have "?out ! j = take i ?out ! j" "j < length (take i ?out)"
          by simp_all
        then have "?out ! j \<in> set (take i ?out)"
          by (metis nth_mem)
        with l(2) show ?thesis by blast
      qed
      with eq l(1) show ?thesis by simp
    qed
  qed
  show ?thesis
  proof (intro conjI allI impI)
    show "length ?out = length qs" by (rule len)
  next
    fix i assume "i < length qs" "truthy (obj_get (qs ! i) ''refId'')"
    then show "obj_get (?out ! i) ''refId'' = obj_get (qs ! i) ''refId''"
      using refId by simp
  next
    fix i assume "i < length qs" "\<not> truthy (obj_get (qs ! i) ''refId'')"
    then show "obj_get (?out ! i) ''refId'' = getNextRefIdChar (take i ?out)"
      using refId by simp
  next
    fix i assume "i < length qs" "\<not> truthy (obj_get (qs ! i) ''refId'')"
    then show "obj_get (?out ! i) ''refId'' = JUndefined \<or>
      (\<forall>j<i. obj_get (?out ! j) ''refId'' \<noteq> obj_get (?out ! i) ''refId'')"
      by (rule fresh)
  qed
qed

theorem ensureQueries_refIds_witness:
  "[[(''refId'', JStr ''B''), (''expr'', JStr ''up'')], [(''expr'', JStr ''down'')]] \<noteq> [] \<and>
   length (ensureQueries ref_env sample_readings
     (Some [[(''refId'', JStr ''B''), (''expr'', JStr ''up'')], [(''expr'', JStr ''down'')]])) = 2 \<and>
   ensureQueries ref_env sample_readings
     (Some [[(''refId'', JStr ''B''), (''expr'', JStr ''up'')], [(''expr'', JStr ''down'')]]) =
     [[(''refId'', JStr ''B''), (''expr'', JStr ''up''), (''key'', JStr ''Q-1561000000000-0.5-0'')],
      [(''expr'', JStr ''down''), (''refId'', JStr ''A''), (''key'', JStr ''Q-1561000000000-0.5-1'')]]"
proof -
  have n: "[[(''refId'', JStr ''B''), (''expr'', JStr ''up'')], [(''expr'', JStr ''down'')]] \<noteq> []"
    by simp
  have l: "length (ensureQueries ref_env sample_readings
     (Some [[(''refId'', JStr ''B''), (''expr'', JStr ''up'')], [(''expr'', JStr ''down'')]])) = 2"
    using ensureQueries_refIds [OF n, of ref_env sample_readings] by simp
  have v: "ensureQueries ref_env sample_readings
     (Some [[(''refId'', JStr ''B''), (''expr'', JStr ''up'')], [(''expr'', JStr ''down'')]]) =
     [[(''refId'', JStr ''B''), (''expr'', JStr ''up''), (''key'', JStr ''Q-1561000000000-0.5-0'')],
      [(''expr'', JStr ''down''), (''refId'', JStr ''A''), (''key'', JStr ''Q-1561000000000-0.5-1'')]]"
    by code_simp
  from n l v show ?thesis by blast
qed

text \<open>
  Claim C2 as stated fails: two input queries with the same \<^verbatim>\<open>refId\<close> both keep it,
  and a query that arrives with the \<^verbatim>\<open>refId\<close> \<^verbatim>\<open>A\<close> keeps it after an earlier query
  without \<^verbatim>\<open>refId\<close> was given the letter \<^verbatim>\<open>A\<close>.
\<close>

theorem ensureQueries_counterexample:
  "ensureQueries ref_env sample_readings
     (Some [[(''refId'', JStr ''A''), (''expr'', JStr ''up'')],
            [(''refId'', JStr ''A''), (''expr'', JStr ''down'')]]) =
     [[(''refId'', JStr ''A''), (''expr'', JStr ''up''), (''key'', JStr ''Q-1561000000000-0.5-0'')],
      [(''refId'', JStr ''A''), (''expr'', JStr ''down''), (''key'', JStr ''Q-1561000000000-0.5-1'')]] \<and>
   ensureQueries ref_env sample_readings
     (Some [[(''expr'', JStr ''up'')], [(''refId'', JStr ''A''), (''expr'', JStr ''down'')]]) =
     [[(''expr'', JStr ''up''), (''refId'', JStr ''A''), (''key'', JStr ''Q-1561000000000-0.5-0'')],
      [(''refId'', JStr ''A''), (''expr'', JStr ''down''), (''key'', JStr ''Q-1561000000000-0.5-1'')]]"
  by (rule conjI; code_simp)

subsection \<open>Colors across transactions\<close>

lemma colorIndexOffset_loop_closed:
  assumes "\<forall>r\<in>set (filter (\<lambda>other. resultType (H other) = Graph \<and> done' (H other))
                        (takeWhile (\<lambda>other. other \<noteq> t) all)). result (H r) \<noteq> None"
  shows "colorIndexOffset_loop H t all acc =
           Inr (acc + sum_list (map (\<lambda>r. seriesCount (H r))
                  (filter (\<lambda>other. resultType (H other) = Graph \<and> done' (H other))
                     (takeWhile (\<lambda>other. other \<noteq> t) all))))"
  using assms
proof (induction all arbitrary: acc)
  case Nil
  then show ?case by simp
next
  case (Cons other rest)
  show ?case
  proof (cases "other = t")
    case True
    then show ?thesis by simp
  next
    case False
    have tail: "\<forall>r\<in>set (filter (\<lambda>other. resultType (H other) = Graph \<and> done' (H other))
                        (takeWhile (\<lambda>other. other \<noteq> t) rest)). result (H r) \<noteq> None"
      using Cons.prems False by simp
    show ?thesis
    proof (cases "resultType (H other) = Graph \<and> done' (H other)")
      case True
      with Cons.prems False obtain r where r: "result (H other) = Some r"
        by auto
      with True False Cons.IH [OF tail, of "acc + length r"] show ?thesis
        by (simp add: seriesCount_def)
    next
      case no: False
      with False Cons.IH [OF tail, of acc] show ?thesis
        by auto
    qed
  qed
qed

text \<open>
  Claim C7, amended. For every data list, for a palette that is not empty, and for every
  transaction and list of all transactions in which the transaction occurs and in which
  every transaction of type Graph and done that stands before it carries its result:
  \<open>makeTimeSeriesList\<close> returns one series per element of the data list, and the
  series at local index \<open>i\<close> has the color \<open>colors[(offset + i) mod length colors]\<close>,
  where \<open>offset\<close> is the sum of the series counts of the transactions of type Graph and
  done that stand strictly before the given transaction, found by identity, in the
  list of all transactions.
\<close>

theorem makeTimeSeriesList_colors:
  assumes palette: "colors \<noteq> []"
    and occurs: "t \<in> set all"
    and results: "\<forall>r\<in>set (earlier_done_graphs H t all). result (H r) \<noteq> None"
  shows "\<exists>series. makeTimeSeriesList colors H dataList t all = Inr series \<and>
           length series = length dataList \<and>
           (\<forall>i<length dataList.
              color (series ! i) =
                Some (colors ! ((sum_list (map (\<lambda>r. seriesCount (H r)) (earlier_done_graphs H t all)) + i)
                                  mod length colors)))"
proof -
  have e: "earlier_done_graphs H t all =
      filter (\<lambda>other. resultType (H other) = Graph \<and> done' (H other))
        (takeWhile (\<lambda>other. other \<noteq> t) all)"
    using occurs by (simp add: earlier_done_graphs_def)
  have "colorIndexOffset_loop H t all 0 =
      Inr (0 + sum_list (map (\<lambda>r. seriesCount (H r)) (earlier_done_graphs H t all)))"
    unfolding e by (rule colorIndexOffset_loop_closed) (use results e in simp)
  then show ?thesis
    using palette by (simp add: makeTimeSeriesList_def palette_color_def)
qed

text \<open>
  The witness is the scenario of the claim: two done Graph transactions with 2 and 3
  series stand before the current one, whose first series gets the color at index
  \<open>5 mod 3\<close>. The current transaction equals the first one field by field and is still
  told apart from it, being another object.
\<close>

theorem makeTimeSeriesList_colors_witness:
  "sample_heap 0 = sample_heap 2 \<and>
   makeTimeSeriesList [''red'', ''green'', ''blue''] sample_heap
     [\<lparr>seriesData.datapoints = JUndefined, target = JStr ''up'', unit = JUndefined\<rparr>,
      \<lparr>seriesData.datapoints = JUndefined, target = JStr ''down'', unit = JUndefined\<rparr>] 2 [0, 1, 2] =
     Inr [\<lparr>TimeSeries.datapoints = JArr [], alias' = JStr ''up'', color = Some ''blue'',
            unit = JUndefined\<rparr>,
          \<lparr>TimeSeries.datapoints = JArr [], alias' = JStr ''down'', color = Some ''red'',
            unit = JUndefined\<rparr>]"
proof -
  let ?dl = "[\<lparr>seriesData.datapoints = JUndefined, target = JStr ''up'', unit = JUndefined\<rparr>,
      \<lparr>seriesData.datapoints = JUndefined, target = JStr ''down'', unit = JUndefined\<rparr>]"
  have p: "[''red'', ''green'', ''blue''] \<noteq> []"
    by simp
  have o: "(2::nat) \<in> set [0, 1, 2]"
    by simp
  have g: "earlier_done_graphs sample_heap 2 [0, 1, 2] = [0, 1]"
    by (simp add: earlier_done_graphs_def sample_heap_def sample_transaction_def)
  have r: "\<forall>r\<in>set (earlier_done_graphs sample_heap 2 [0, 1, 2]). result (sample_heap r) \<noteq> None"
    unfolding g by (simp add: sample_heap_def sample_transaction_def)
  have n: "sum_list (map (\<lambda>r. seriesCount (sample_heap r)) (earlier_done_graphs sample_heap 2 [0, 1, 2])) = 5"
    unfolding g by (simp add: seriesCount_def sample_heap_def sample_transaction_def)
  from makeTimeSeriesList_colors [OF p o r, of ?dl]
  obtain series where s: "makeTimeSeriesList [''red'', ''green'', ''blue''] sample_heap ?dl 2 [0, 1, 2] = Inr series"
    and c: "\<forall>i<length ?dl. color (series ! i) =
      Some ([''red'', ''green'', ''blue''] ! ((5 + i) mod length [''red'', ''green'', ''blue'']))"
    unfolding n by blast
  from c have "color (series ! 0) = Some ''blue''"
    by simp
  moreover have "makeTimeSeriesList [''red'', ''green'', ''blue''] sample_heap ?dl 2 [0, 1, 2] =
     Inr [\<lparr>TimeSeries.datapoints = JArr [], alias' = JStr ''up'', color = Some ''blue'',
            unit = JUndefined\<rparr>,
          \<lparr>TimeSeries.datapoints = JArr [], alias' = JStr ''down'', color = Some ''red'',
            unit = JUndefined\<rparr>]"
    by (simp add: makeTimeSeriesList_def palette_color_def sample_heap_def sample_transaction_def
        upt_rec)
  moreover have "sample_heap 0 = sample_heap 2"
    by (simp add: sample_heap_def)
  ultimately show ?thesis
    using s by simp
qed

text \<open>
  Claim C7 as stated, for every list of all transactions, fails twice. When a done
  Graph transaction before the current one has no result, reading the length of its
  result throws. When the current transaction is not in the list, no transaction
  stands before it, and yet every done Graph transaction of the list is counted: the
  first series gets the color at index \<open>5 mod 3\<close>, not the first color.
\<close>

theorem makeTimeSeriesList_colors_counterexample:
  "makeTimeSeriesList [''red'', ''green'', ''blue''] sample_failed_heap
     [\<lparr>seriesData.datapoints = JUndefined, target = JStr ''up'', unit = JUndefined\<rparr>] 2 [0, 1, 2] =
     Inl TypeError \<and>
   earlier_done_graphs sample_heap 7 [0, 1] = [] \<and>
   makeTimeSeriesList [''red'', ''green'', ''blue''] sample_heap
     [\<lparr>seriesData.datapoints = JUndefined, target = JStr ''up'', unit = JUndefined\<rparr>] 7 [0, 1] =
     Inr [\<lparr>TimeSeries.datapoints = JArr [], alias' = JStr ''up'', color = Some ''blue'',
            unit = JUndefined\<rparr>]"
proof (intro conjI)
  show "makeTimeSeriesList [''red'', ''green'', ''blue''] sample_failed_heap
     [\<lparr>seriesData.datapoints = JUndefined, target = JStr ''up'', unit = JUndefined\<rparr>] 2 [0, 1, 2] =
     Inl TypeError"
    by (simp add: makeTimeSeriesList_def sample_failed_heap_def sample_transaction_def)
  show "earlier_done_graphs sample_heap 7 [0, 1] = []"
    by (simp add: earlier_done_graphs_def)
  show "makeTimeSeriesList [''red'', ''green'', ''blue''] sample_heap
     [\<lparr>seriesData.datapoints = JUndefined, target = JStr ''up'', unit = JUndefined\<rparr>] 7 [0, 1] =
     Inr [\<lparr>TimeSeries.datapoints = JArr [], alias' = JStr ''up'', color = Some ''blue'',
            unit = JUndefined\<rparr>]"
    by (simp add: makeTimeSeriesList_def palette_color_def sample_heap_def sample_transaction_def
        upt_rec)
qed

text \<open>The scenario for any palette: the first series gets the color at index
  \<open>5 mod length colors\<close>.\<close>

lemma makeTimeSeriesList_two_prior:
  assumes "a \<noteq> t" "b \<noteq> t"
    and "resultType (H a) = Graph" "done' (H a)" "result (H a) = Some ra" "length ra = 2"
    and "resultType (H b) = Graph" "done' (H b)" "result (H b) = Some rb" "length rb = 3"
    and "colors \<noteq> []" "dataList \<noteq> []"
  shows "\<exists>series. makeTimeSeriesList colors H dataList t [a, b, t] = Inr series \<and>
           color (series ! 0) = Some (colors ! (5 mod length colors))"
  using assms
  by (cases dataList) (simp_all add: makeTimeSeriesList_def palette_color_def upt_rec)

subsection \<open>Building a transaction\<close>

lemma combineKeys_strings:
  "map (\<lambda>q. obj_get q ''key'') qs = map JStr ks \<Longrightarrow> combineKeys E acc qs = Inr (acc @ concat ks)"
  by (induction qs arbitrary: acc ks) auto

lemma fold_set_get:
  "obj_get (fold (\<lambda>k target. obj_set k (obj_get src k) target) ks q) k' =
     (if k' \<in> set ks then obj_get src k' else obj_get q k')"
  by (induction ks arbitrary: q) (auto simp: obj_get_set)

lemma spread_onto_get:
  "obj_get (spread_onto q src) k =
     (if k \<in> set (Object_keys src) then obj_get src k else obj_get q k)"
  by (simp add: spread_onto_def fold_set_get)

lemma buildQueryTransaction_panelId:
  assumes "map (\<lambda>q. obj_get q ''key'') qs = map JStr ks"
    and "obj_get queryOptions ''format'' = JStr f"
  shows "\<exists>tx. buildQueryTransaction E reading qs rt queryOptions rng qi scan = Inr tx \<and>
           panelId (options tx) = f @ ''-'' @ concat ks"
  by (simp add: buildQueryTransaction_def combineKeys_strings [OF assms(1)] assms(2))

text \<open>
  Claim C8, amended. For every batch of queries whose \<^verbatim>\<open>key\<close> fields are strings, options
  whose \<^verbatim>\<open>format\<close> is a string, range, intervals and scanning flag,
  \<open>buildQueryTransaction\<close> returns a transaction in which: the targets are the queries,
  one for one, each merged with the options, a field of the options overriding the
  query's field of the same name; the panel id is the format, a dash and the keys of
  the queries concatenated in batch order; the queries are the batch as given; \<open>done\<close>
  is false and the latency 0. Another batch built with the same options, a reordering
  of the first in particular, gets the same panel id exactly when its keys concatenate
  to the same string: reordering changes the panel id when it changes the
  concatenation, and only then.
\<close>

theorem buildQueryTransaction_result:
  assumes keys: "map (\<lambda>q. obj_get q ''key'') qs = map JStr ks"
    and format: "obj_get queryOptions ''format'' = JStr f"
    and keys': "map (\<lambda>q. obj_get q ''key'') qs' = map JStr ks'"
  shows "\<exists>tx tx'.
           buildQueryTransaction E reading qs rt queryOptions rng qi scan = Inr tx \<and>
           buildQueryTransaction E reading' qs' rt' queryOptions rng' qi' scan' = Inr tx' \<and>
           length (targets (options tx)) = length qs \<and>
           (\<forall>i<length qs. \<forall>k.
              obj_get (targets (options tx) ! i) k =
                (if k \<in> set (Object_keys queryOptions) then obj_get queryOptions k
                 else obj_get (qs ! i) k)) \<and>
           panelId (options tx) = f @ ''-'' @ concat ks \<and>
           (panelId (options tx') = panelId (options tx) \<longleftrightarrow> concat ks' = concat ks) \<and>
           queries tx = qs \<and> done' tx = False \<and> latency tx = 0"
proof -
  from buildQueryTransaction_panelId [OF keys' format, of E reading' rt' rng' qi' scan']
  obtain tx' where tx': "buildQueryTransaction E reading' qs' rt' queryOptions rng' qi' scan' = Inr tx'"
    "panelId (options tx') = f @ ''-'' @ concat ks'"
    by blast
  have "\<exists>tx. buildQueryTransaction E reading qs rt queryOptions rng qi scan = Inr tx \<and>
           length (targets (options tx)) = length qs \<and>
           (\<forall>i<length qs. \<forall>k.
              obj_get (targets (options tx) ! i) k =
                (if k \<in> set (Object_keys queryOptions) then obj_get queryOptions k
                 else obj_get (qs ! i) k)) \<and>
           panelId (options tx) = f @ ''-'' @ concat ks \<and>
           queries tx = qs \<and> done' tx = False \<and> latency tx = 0"
    by (simp add: buildQueryTransaction_def combineKeys_strings [OF keys] format spread_onto_get)
  then obtain tx where tx: "buildQueryTransaction E reading qs rt queryOptions rng qi scan = Inr tx"
    "length (targets (options tx)) = length qs"
    "\<forall>i<length qs. \<forall>k.
              obj_get (targets (options tx) ! i) k =
                (if k \<in> set (Object_keys queryOptions) then obj_get queryOptions k
                 else obj_get (qs ! i) k)"
    "panelId (options tx) = f @ ''-'' @ concat ks"
    "queries tx = qs" "done' tx = False" "latency tx = 0"
    by blast
  from tx(4) tx'(2) have "panelId (options tx') = panelId (options tx) \<longleftrightarrow> concat ks' = concat ks"
    by simp
  with tx tx'(1) show ?thesis
    by blast
qed

text \<open>The witness builds the transaction of a batch and of the same batch in the
  other order: here the keys concatenate differently and the panel ids differ. The
  first query has a \<^verbatim>\<open>format\<close> of its own, which the options override.\<close>

theorem buildQueryTransaction_result_witness:
  "\<exists>tx tx'.
      buildQueryTransaction ref_env (Dec 1561 9, Dec 5 (- 1))
        [[(''refId'', JStr ''A''), (''key'', JStr ''Q-1-0.5-0''), (''format'', JStr ''table'')],
         [(''refId'', JStr ''B''), (''key'', JStr ''Q-1-0.5-1''), (''expr'', JStr ''down'')]]
        Graph [(''interval'', JStr ''1s''), (''format'', JStr ''time_series'')]
        \<lparr>from' = (), to' = (), raw = JNull\<rparr> \<lparr>interval = JStr ''1s'', intervalMs = JNum (Dec 1 3)\<rparr>
        False = Inr tx \<and>
      buildQueryTransaction ref_env (Dec 1561 9, Dec 5 (- 1))
        [[(''refId'', JStr ''B''), (''key'', JStr ''Q-1-0.5-1''), (''expr'', JStr ''down'')],
         [(''refId'', JStr ''A''), (''key'', JStr ''Q-1-0.5-0''), (''format'', JStr ''table'')]]
        Graph [(''interval'', JStr ''1s''), (''format'', JStr ''time_series'')]
        \<lparr>from' = (), to' = (), raw = JNull\<rparr> \<lparr>interval = JStr ''1s'', intervalMs = JNum (Dec 1 3)\<rparr>
        False = Inr tx' \<and>
      panelId (options tx) = ''time_series-Q-1-0.5-0Q-1-0.5-1'' \<and>
      panelId (options tx') \<noteq> panelId (options tx) \<and>
      obj_get (targets (options tx) ! 0) ''format'' = JStr ''time_series'' \<and>
      obj_get (targets (options tx) ! 1) ''expr'' = JStr ''down'' \<and>
      queries tx =
        [[(''refId'', JStr ''A''), (''key'', JStr ''Q-1-0.5-0''), (''format'', JStr ''table'')],
         [(''refId'', JStr ''B''), (''key'', JStr ''Q-1-0.5-1''), (''expr'', JStr ''down'')]] \<and>
      done' tx = False \<and> latency tx = 0"
proof -
  let ?qa = "[(''refId'', JStr ''A''), (''key'', JStr ''Q-1-0.5-0''), (''format'', JStr ''table'')]"
  let ?qb = "[(''refId'', JStr ''B''), (''key'', JStr ''Q-1-0.5-1''), (''expr'', JStr ''down'')]"
  let ?opts = "[(''interval'', JStr ''1s''), (''format'', JStr ''time_series'')]"
  let ?build = "\<lambda>qs. buildQueryTransaction ref_env (Dec 1561 9, Dec 5 (- 1)) qs Graph ?opts
       \<lparr>from' = (), to' = (), raw = JNull\<rparr> \<lparr>interval = JStr ''1s'', intervalMs = JNum (Dec 1 3)\<rparr> False"
  have f: "obj_get ?opts ''format'' = JStr ''time_series''"
    by (simp add: obj_get_def)
  have ab: "map (\<lambda>q. obj_get q ''key'') [?qa, ?qb] = map JStr [''Q-1-0.5-0'', ''Q-1-0.5-1'']"
    by (simp add: obj_get_def)
  have ba: "map (\<lambda>q. obj_get q ''key'') [?qb, ?qa] = map JStr [''Q-1-0.5-1'', ''Q-1-0.5-0'']"
    by (simp add: obj_get_def)
  from buildQueryTransaction_result [OF ab f ba, of ref_env "(Dec 1561 9, Dec 5 (- 1))" Graph
      "\<lparr>from' = (), to' = (), raw = JNull\<rparr>" "\<lparr>interval = JStr ''1s'', intervalMs = JNum (Dec 1 3)\<rparr>" False
      "(Dec 1561 9, Dec 5 (- 1))" Graph
      "\<lparr>from' = (), to' = (), raw = JNull\<rparr>" "\<lparr>interval = JStr ''1s'', intervalMs = JNum (Dec 1 3)\<rparr>" False]
  obtain tx tx' where tx: "?build [?qa, ?qb] = Inr tx" and tx': "?build [?qb, ?qa] = Inr tx'"
    and merged: "\<forall>i<length [?qa, ?qb]. \<forall>k. obj_get (targets (options tx) ! i) k =
        (if k \<in> set (Object_keys ?opts) then obj_get ?opts k else obj_get ([?qa, ?qb] ! i) k)"
    and panel: "panelId (options tx) = ''time_series'' @ ''-'' @ concat [''Q-1-0.5-0'', ''Q-1-0.5-1'']"
    and same: "panelId (options tx') = panelId (options tx) \<longleftrightarrow>
        concat [''Q-1-0.5-1'', ''Q-1-0.5-0''] = concat [''Q-1-0.5-0'', ''Q-1-0.5-1'']"
    and rest: "queries tx = [?qa, ?qb]" "done' tx = False" "latency tx = 0"
    by blast
  from merged have "obj_get (targets (options tx) ! 0) ''format'' = JStr ''time_series''"
    by (simp add: Object_keys_def obj_get_def)
  moreover from merged have "obj_get (targets (options tx) ! 1) ''expr'' = JStr ''down''"
    by (simp add: Object_keys_def obj_get_def)
  moreover from panel have "panelId (options tx) = ''time_series-Q-1-0.5-0Q-1-0.5-1''"
    by simp
  moreover from same have "panelId (options tx') \<noteq> panelId (options tx)"
    by simp
  ultimately show ?thesis
    using tx tx' rest by blast
qed

text \<open>
  Claim C8 as stated fails where it says that reordering the batch changes the panel
  id: the keys are concatenated with nothing between them, and the batch with the keys
  \<^verbatim>\<open>a\<close>, \<^verbatim>\<open>aa\<close> and the batch with the keys \<^verbatim>\<open>aa\<close>, \<^verbatim>\<open>a\<close> both get the panel id
  \<^verbatim>\<open>time_series-aaa\<close>.
\<close>

theorem buildQueryTransaction_counterexample:
  "map_sum id (panelId \<circ> options)
     (buildQueryTransaction ref_env (Dec 1561 9, Dec 5 (- 1))
        [[(''refId'', JStr ''A''), (''key'', JStr ''a'')], [(''refId'', JStr ''B''), (''key'', JStr ''aa'')]]
        Graph [(''format'', JStr ''time_series'')]
        \<lparr>from' = (), to' = (), raw = JNull\<rparr> \<lparr>interval = JStr ''1s'', intervalMs = JNum (Dec 1 3)\<rparr>
        False) = Inr ''time_series-aaa'' \<and>
   map_sum id (panelId \<circ> options)
     (buildQueryTransaction ref_env (Dec 1561 9, Dec 5 (- 1))
        [[(''refId'', JStr ''B''), (''key'', JStr ''aa'')], [(''refId'', JStr ''A''), (''key'', JStr ''a'')]]
        Graph [(''format'', JStr ''time_series'')]
        \<lparr>from' = (), to' = (), raw = JNull\<rparr> \<lparr>interval = JStr ''1s'', intervalMs = JNum (Dec 1 3)\<rparr>
        False) = Inr ''time_series-aaa'' \<and>
   [[(''refId'', JStr ''A''), (''key'', JStr ''a'')], [(''refId'', JStr ''B''), (''key'', JStr ''aa'')]] \<noteq>
   [[(''refId'', JStr ''B''), (''key'', JStr ''aa'')], [(''refId'', JStr ''A''), (''key'', JStr ''a'')]]"
  by (simp add: buildQueryTransaction_def obj_get_def)

end
